theory Spec2Isabelle
  imports Complex_Main "HOL-Library.Log_Nat"
begin

section \<open>Surface rendering of \<^verbatim>\<open>workflow/scripts/brain4views.py\<close>\<close>

text \<open>
  A shallow embedding of \<^verbatim>\<open>plot_surf4\<close> and its helpers. numpy's float64
  arrays are modelled over \<^typ>\<open>real\<close>. In the mesh normalizer every arithmetic
  operation is passed through a rounding function, so that it can be read both in exact
  arithmetic and in binary64; elsewhere rounding is not modelled. Where numpy would
  store nan or inf (a division by zero), the shading and the overlay normalisation carry
  them as values; the other divisions return the value \<open>NonFinite\<close> instead of a
  number. An (n, 3) array is a list of triples, one per row. The code is read with the
  numpy it was written for, in which \<^verbatim>\<open>np.float\<close> is \<^verbatim>\<open>float\<close>.
\<close>

subsection \<open>Errors\<close>

text \<open>
  The exceptions the code raises, as values. The four \<open>ValueError\<close>s of
  \<^verbatim>\<open>plot_surf4\<close> carry these messages in the source:
  \<^item> \<open>ValueError_sulc\<close>: "The sulcal map does not have the same number of vertices as the mesh."
  \<^item> \<open>ValueError_labels\<close>: "labels and label_colors must be lists of the same length."
  \<^item> \<open>ValueError_overlay_dims n\<close>: "overlay can only have one dimension but has n dimensions"
  \<^item> \<open>ValueError_overlay_len\<close>: "The overlay does not have the same number of vertices as the mesh."

  \<open>NumpyValueError\<close> is numpy's own error for \<^verbatim>\<open>max\<close>/\<^verbatim>\<open>min\<close> of an empty array,
  \<open>IndexError\<close> an index out of range, \<open>TypeError\<close> is \<^verbatim>\<open>len(None)\<close> or arithmetic on
  \<^verbatim>\<open>None\<close>, \<open>NameError\<close> is the use of a local variable that was never assigned
  (Python's \<^verbatim>\<open>UnboundLocalError\<close>).
  \<open>NonFinite\<close> is not an exception: numpy warns, stores nan or inf and goes on; the
  real-valued model stops there.
\<close>

datatype error =
    ValueError_sulc
  | ValueError_labels
  | ValueError_overlay_dims nat
  | ValueError_overlay_len
  | NumpyValueError
  | IndexError
  | TypeError
  | NameError
  | NonFinite

subsection \<open>Vectors and meshes\<close>

type_synonym vec3 = "real \<times> real \<times> real"
type_synonym face = "nat \<times> nat \<times> nat"

definition vx :: "vec3 \<Rightarrow> real" where "vx v = fst v"
definition vy :: "vec3 \<Rightarrow> real" where "vy v = fst (snd v)"
definition vz :: "vec3 \<Rightarrow> real" where "vz v = snd (snd v)"

definition v_sub :: "vec3 \<Rightarrow> vec3 \<Rightarrow> vec3" where
  "v_sub a b = (vx a - vx b, vy a - vy b, vz a - vz b)"

definition v_add :: "vec3 \<Rightarrow> vec3 \<Rightarrow> vec3" where
  "v_add a b = (vx a + vx b, vy a + vy b, vz a + vz b)"

definition v_scale_div :: "vec3 \<Rightarrow> real \<Rightarrow> vec3" where
  "v_scale_div a r = (vx a / r, vy a / r, vz a / r)"

text \<open>\<^verbatim>\<open>vertices.max(0)\<close> and \<^verbatim>\<open>vertices.min(0)\<close>: the per-axis extremes.\<close>

definition col_max :: "vec3 list \<Rightarrow> vec3" where
  "col_max vs = (Max (set (map vx vs)), Max (set (map vy vs)), Max (set (map vz vs)))"

definition col_min :: "vec3 list \<Rightarrow> vec3" where
  "col_min vs = (Min (set (map vx vs)), Min (set (map vy vs)), Min (set (map vz vs)))"

subsection \<open>Rounding to binary64\<close>

text \<open>
  \<open>fl64 x\<close> is the binary64 number nearest to \<open>x\<close>, ties to the even significand: with
  \<open>2 ^ e \<le> \<bar>x\<bar> < 2 ^ (e + 1)\<close> the significand \<open>x / 2 ^ (e - 52)\<close> is rounded to an
  integer. The exponent is not bounded: overflow and subnormal numbers are not modelled.
  IEEE arithmetic, which numpy uses, returns \<open>fl64\<close> of the exact sum, difference or
  quotient of its operands.
\<close>

definition pow2 :: "int \<Rightarrow> real" where
  "pow2 e = (if 0 \<le> e then 2 ^ nat e else 1 / 2 ^ nat (- e))"

text \<open>\<open>ilog2 a\<close> is the exponent \<open>e\<close> with \<open>2 ^ e \<le> a < 2 ^ (e + 1)\<close>, for \<open>0 < a\<close>.\<close>

definition ilog2 :: "real \<Rightarrow> int" where
  "ilog2 a = (if 1 \<le> a then bitlen \<lfloor>a\<rfloor> - 1 else - bitlen (\<lceil>1 / a\<rceil> - 1))"

definition round_half_even :: "real \<Rightarrow> int" where
  "round_half_even y =
     (let f = \<lfloor>y\<rfloor>; r = y - of_int f in
      if r < 1 / 2 then f else if 1 / 2 < r then f + 1 else if even f then f else f + 1)"

definition fl64 :: "real \<Rightarrow> real" where
  "fl64 x =
     (if x = 0 then 0
      else let e = ilog2 \<bar>x\<bar> - 52 in of_int (round_half_even (x / pow2 e)) * pow2 e)"

text \<open>An elementwise operation on a row, rounded by \<open>fl\<close>.\<close>

definition v_round :: "(real \<Rightarrow> real) \<Rightarrow> vec3 \<Rightarrow> vec3" where
  "v_round fl v = (fl (vx v), fl (vy v), fl (vz v))"

subsection \<open>Mesh normalizer (lines 174-175)\<close>

text \<open>
  \<^verbatim>\<open>vert_range = max(vertices.max(0) - vertices.min(0))\<close>
  \<^verbatim>\<open>vertices = (vertices - (vertices.max(0) + vertices.min(0)) / 2) / vert_range\<close>
  Five array operations, each rounded by \<open>fl\<close>: the difference and the sum of the
  per-axis extremes, the halving, the subtraction of the centre and the division by the
  range. The extremes and Python's \<^verbatim>\<open>max\<close> of the three extents are exact. \<open>fl\<close> is
  \<open>fl64\<close> for the code as it runs and the identity for exact arithmetic.
\<close>

definition vert_range :: "(real \<Rightarrow> real) \<Rightarrow> vec3 list \<Rightarrow> real" where
  "vert_range fl vs =
     (let e = v_round fl (v_sub (col_max vs) (col_min vs)) in max (vx e) (max (vy e) (vz e)))"

definition bbox_center :: "(real \<Rightarrow> real) \<Rightarrow> vec3 list \<Rightarrow> vec3" where
  "bbox_center fl vs = v_round fl (v_scale_div (v_round fl (v_add (col_max vs) (col_min vs))) 2)"

definition normalize_vertices :: "(real \<Rightarrow> real) \<Rightarrow> vec3 list \<Rightarrow> error + vec3 list" where
  "normalize_vertices fl vs =
     (if vs = [] then Inl NumpyValueError
      else if vert_range fl vs = 0 then Inl NonFinite
      else Inr (map (\<lambda>v. v_round fl (v_scale_div (v_round fl (v_sub v (bbox_center fl vs)))
                                          (vert_range fl vs))) vs))"

subsection \<open>Face normals (lines 9-25)\<close>

text \<open>
  \<^verbatim>\<open>EPSILON = 1e-12\<close>. \<^verbatim>\<open>normalize_v3\<close> divides each row by its length plus
  \<^verbatim>\<open>EPSILON\<close>; a division is written \<open>np_divide\<close>, which is non-finite for a zero
  divisor. \<^verbatim>\<open>normal_vectors\<close> takes \<^verbatim>\<open>tris = vertices[faces]\<close> (an index out of
  range raises), the cross product of the edges \<^verbatim>\<open>tris[:, 1] - tris[:, 0]\<close> and
  \<^verbatim>\<open>tris[:, 2] - tris[:, 0]\<close>, and normalises it.
\<close>

definition EPSILON :: real where
  "EPSILON = 1 / 10 ^ 12"

definition np_divide :: "real \<Rightarrow> real \<Rightarrow> error + real" where
  "np_divide a b = (if b = 0 then Inl NonFinite else Inr (a / b))"

definition v_len :: "vec3 \<Rightarrow> real" where
  "v_len v = sqrt ((vx v)\<^sup>2 + (vy v)\<^sup>2 + (vz v)\<^sup>2)"

definition normalize_v3_row :: "vec3 \<Rightarrow> error + vec3" where
  "normalize_v3_row v =
     (let lens = v_len v in
      case np_divide (vx v) (lens + EPSILON) of Inl e \<Rightarrow> Inl e | Inr x \<Rightarrow>
      case np_divide (vy v) (lens + EPSILON) of Inl e \<Rightarrow> Inl e | Inr y \<Rightarrow>
      case np_divide (vz v) (lens + EPSILON) of Inl e \<Rightarrow> Inl e | Inr z \<Rightarrow>
      Inr (x, y, z))"

fun collect :: "(error + 'a) list \<Rightarrow> error + 'a list" where
  "collect [] = Inr []"
| "collect (Inl e # rs) = Inl e"
| "collect (Inr x # rs) = (case collect rs of Inl e \<Rightarrow> Inl e | Inr xs \<Rightarrow> Inr (x # xs))"

definition normalize_v3 :: "vec3 list \<Rightarrow> error + vec3 list" where
  "normalize_v3 arr = collect (map normalize_v3_row arr)"

definition face_in_range :: "nat \<Rightarrow> face \<Rightarrow> bool" where
  "face_in_range n f = (case f of (a, b, c) \<Rightarrow> a < n \<and> b < n \<and> c < n)"

definition take3 :: "'a list \<Rightarrow> face \<Rightarrow> 'a \<times> 'a \<times> 'a" where
  "take3 xs f = (case f of (a, b, c) \<Rightarrow> (xs ! a, xs ! b, xs ! c))"

definition gather :: "'a list \<Rightarrow> face list \<Rightarrow> error + ('a \<times> 'a \<times> 'a) list" where
  "gather xs fs =
     (if list_all (face_in_range (length xs)) fs then Inr (map (take3 xs) fs)
      else Inl IndexError)"

definition cross :: "vec3 \<Rightarrow> vec3 \<Rightarrow> vec3" where
  "cross a b = (vy a * vz b - vz a * vy b, vz a * vx b - vx a * vz b, vx a * vy b - vy a * vx b)"

definition face_cross :: "vec3 \<times> vec3 \<times> vec3 \<Rightarrow> vec3" where
  "face_cross t = (case t of (p0, p1, p2) \<Rightarrow> cross (v_sub p1 p0) (v_sub p2 p0))"

definition normal_vectors :: "vec3 list \<Rightarrow> face list \<Rightarrow> error + vec3 list" where
  "normal_vectors vertices faces =
     (case gather vertices faces of
        Inl e \<Rightarrow> Inl e
      | Inr tris \<Rightarrow> normalize_v3 (map face_cross tris))"

definition row_sq_sum :: "vec3 \<Rightarrow> real" where
  "row_sq_sum v = (vx v)\<^sup>2 + (vy v)\<^sup>2 + (vz v)\<^sup>2"

subsection \<open>Overlay values: floats with nan and inf\<close>

text \<open>
  Overlay data may hold nan (the code asks for \<^verbatim>\<open>np.nanmin\<close>), and the overlay
  normalisation divides by \<^verbatim>\<open>vmax - vmin\<close> unguarded, so overlay values are modelled
  with IEEE's special values. Signed zeros and rounding are not modelled: a zero divisor
  counts as \<open>+0\<close>.
\<close>

datatype npfloat = Fin real | PInf | NInf | NaN

fun np_neg :: "npfloat \<Rightarrow> npfloat" where
  "np_neg (Fin a) = Fin (- a)"
| "np_neg PInf = NInf"
| "np_neg NInf = PInf"
| "np_neg NaN = NaN"

fun np_add :: "npfloat \<Rightarrow> npfloat \<Rightarrow> npfloat" where
  "np_add NaN b = NaN"
| "np_add a NaN = NaN"
| "np_add (Fin a) (Fin b) = Fin (a + b)"
| "np_add PInf NInf = NaN"
| "np_add NInf PInf = NaN"
| "np_add PInf b = PInf"
| "np_add a PInf = PInf"
| "np_add NInf b = NInf"
| "np_add a NInf = NInf"

definition np_sub :: "npfloat \<Rightarrow> npfloat \<Rightarrow> npfloat" where
  "np_sub a b = np_add a (np_neg b)"

fun np_div :: "npfloat \<Rightarrow> npfloat \<Rightarrow> npfloat" where
  "np_div NaN b = NaN"
| "np_div a NaN = NaN"
| "np_div (Fin a) (Fin b) =
     (if b \<noteq> 0 then Fin (a / b) else if 0 < a then PInf else if a < 0 then NInf else NaN)"
| "np_div (Fin a) b = Fin 0"
| "np_div PInf (Fin b) = (if 0 \<le> b then PInf else NInf)"
| "np_div NInf (Fin b) = (if 0 \<le> b then NInf else PInf)"
| "np_div a b = NaN"

fun np_abs :: "npfloat \<Rightarrow> npfloat" where
  "np_abs (Fin a) = Fin \<bar>a\<bar>"
| "np_abs PInf = PInf"
| "np_abs NInf = PInf"
| "np_abs NaN = NaN"

text \<open>\<^verbatim>\<open>x >= t\<close> for a Python number \<open>t\<close>: false for nan.\<close>

fun np_ge :: "npfloat \<Rightarrow> real \<Rightarrow> bool" where
  "np_ge (Fin a) t = (t \<le> a)"
| "np_ge PInf t = True"
| "np_ge NInf t = False"
| "np_ge NaN t = False"

text \<open>\<^verbatim>\<open>x > t\<close> for a Python number \<open>t\<close>: false for nan.\<close>

fun np_gt :: "npfloat \<Rightarrow> real \<Rightarrow> bool" where
  "np_gt (Fin a) t = (t < a)"
| "np_gt PInf t = True"
| "np_gt NInf t = False"
| "np_gt NaN t = False"

text \<open>\<^verbatim>\<open>fmin\<close>/\<^verbatim>\<open>fmax\<close>: the smaller/larger operand, a nan operand ignored.\<close>

fun np_fmin :: "npfloat \<Rightarrow> npfloat \<Rightarrow> npfloat" where
  "np_fmin NaN b = b"
| "np_fmin a NaN = a"
| "np_fmin NInf b = NInf"
| "np_fmin a NInf = NInf"
| "np_fmin PInf b = b"
| "np_fmin a PInf = a"
| "np_fmin (Fin a) (Fin b) = Fin (min a b)"

fun np_fmax :: "npfloat \<Rightarrow> npfloat \<Rightarrow> npfloat" where
  "np_fmax NaN b = b"
| "np_fmax a NaN = a"
| "np_fmax PInf b = PInf"
| "np_fmax a PInf = PInf"
| "np_fmax NInf b = b"
| "np_fmax a NInf = a"
| "np_fmax (Fin a) (Fin b) = Fin (max a b)"

text \<open>
  \<^verbatim>\<open>np.nanmin\<close>, \<^verbatim>\<open>np.nanmax\<close>: the extreme of the values that are not nan; nan
  (with a warning) when every value is nan.
\<close>

definition nanmin :: "npfloat list \<Rightarrow> npfloat" where
  "nanmin xs = fold np_fmin xs NaN"

definition nanmax :: "npfloat list \<Rightarrow> npfloat" where
  "nanmax xs = fold np_fmax xs NaN"

subsection \<open>Per-vertex to per-face reduction\<close>

text \<open>
  \<^verbatim>\<open>np.mean(x[faces], axis=1)\<close> and \<^verbatim>\<open>np.median(x[faces], axis=1)\<close> over the three
  vertex values of a face. The median of three is the middle value; numpy's median is
  nan when a value is nan.
\<close>

definition mean3 :: "real \<times> real \<times> real \<Rightarrow> real" where
  "mean3 t = (case t of (a, b, c) \<Rightarrow> (a + b + c) / 3)"

definition median3 :: "real \<times> real \<times> real \<Rightarrow> real" where
  "median3 t = (case t of (a, b, c) \<Rightarrow> max (min a b) (min (max a b) c))"

definition np_mean3 :: "npfloat \<times> npfloat \<times> npfloat \<Rightarrow> npfloat" where
  "np_mean3 t = (case t of (a, b, c) \<Rightarrow> np_div (np_add (np_add a b) c) (Fin 3))"

definition np_median3 :: "npfloat \<times> npfloat \<times> npfloat \<Rightarrow> npfloat" where
  "np_median3 t = (case t of (a, b, c) \<Rightarrow>
     if a = NaN \<or> b = NaN \<or> c = NaN then NaN
     else np_fmax (np_fmin a b) (np_fmin (np_fmax a b) c))"

text \<open>A boolean mask read as numbers: \<^verbatim>\<open>True\<close> is 1, \<^verbatim>\<open>False\<close> is 0.\<close>

definition mask_values :: "bool list \<Rightarrow> real list" where
  "mask_values msk = map (\<lambda>b. if b then 1 else 0) msk"

subsection \<open>Arguments of \<^verbatim>\<open>plot_surf4\<close>\<close>

text \<open>
  What the loaders of \<^verbatim>\<open>nilearn.surface\<close> return is taken as given: a mesh is its
  vertex and face arrays, a label or cortex file is an array of vertex indices, a sulcal
  map is a one-dimensional array. An overlay array is kept with its shape, since the code
  tests it: \<open>Arr0\<close> has shape \<open>()\<close>, \<open>Arr1 xs\<close> has shape \<open>(length xs,)\<close>, and
  \<open>ArrN d0 d1 ds\<close> has shape \<open>(d0, d1, ds...)\<close> (its data is never read).
  The two-element lists \<^verbatim>\<open>[lh, rh]\<close> are pairs; \<^verbatim>\<open>x[m]\<close> is \<open>pick m x\<close>.
\<close>

type_synonym mesh = "vec3 list \<times> face list"
type_synonym rgba = "real \<times> real \<times> real \<times> real"

datatype ndarray = Arr0 npfloat | Arr1 "npfloat list" | ArrN nat nat "nat list"

fun shape :: "ndarray \<Rightarrow> nat list" where
  "shape (Arr0 x) = []"
| "shape (Arr1 xs) = [length xs]"
| "shape (ArrN d0 d1 ds) = d0 # d1 # ds"

fun arr_values :: "ndarray \<Rightarrow> npfloat list" where
  "arr_values (Arr1 xs) = xs"
| "arr_values a = []"

datatype hemi = LH | RH

fun pick :: "hemi \<Rightarrow> 'a \<times> 'a \<Rightarrow> 'a" where
  "pick LH p = fst p"
| "pick RH p = snd p"

datatype avg = Mean | Median

record args =
  meshes :: "mesh \<times> mesh"
  overlays :: "(ndarray \<times> ndarray) option"
  sulc_maps :: "(real list \<times> real list) option"
  ctx_masks :: "(nat list \<times> nat list) option"
  labels :: "(nat list \<times> nat list) list option"
  label_colors :: "rgba list option"
  label_alpha :: real
  cmap :: "npfloat \<Rightarrow> rgba"
  threshold :: "real option"
  vmin :: "npfloat option"
  vmax :: "npfloat option"
  avg_method :: avg
  colorbar :: bool

text \<open>The arrays of one hemisphere once read and checked (lines 166-249).\<close>

record loaded =
  l_vertices :: "vec3 list"
  l_faces :: "face list"
  l_mask :: "bool list"
  l_sulc :: "real list"
  l_label_colors :: "rgba list"
  l_label_masks :: "bool list list"
  l_overlay :: "npfloat list option"

subsection \<open>Reading and checking one hemisphere (lines 166-249)\<close>

text \<open>
  Lines 174-183 raise inside numpy for an empty vertex array (\<^verbatim>\<open>vertices.max(0)\<close>), a
  face index out of range (\<^verbatim>\<open>vertices[faces]\<close>) and an empty face array
  (\<^verbatim>\<open>np.min(intensity)\<close>).
\<close>

definition mesh_raises :: "mesh \<Rightarrow> error option" where
  "mesh_raises mesh =
     (case mesh of (vertices, faces) \<Rightarrow>
        if vertices = [] then Some NumpyValueError
        else if \<not> list_all (face_in_range (length vertices)) faces then Some IndexError
        else if faces = [] then Some NumpyValueError
        else None)"

text \<open>
  \<^verbatim>\<open>mask = np.zeros(n).astype(bool); mask[indices] = 1\<close>
\<close>

definition index_mask :: "nat \<Rightarrow> nat list \<Rightarrow> error + bool list" where
  "index_mask n indices =
     (if list_all (\<lambda>i. i < n) indices then Inr (map (\<lambda>v. v \<in> set indices) [0..<n])
      else Inl IndexError)"

definition read_ctx_mask :: "args \<Rightarrow> hemi \<Rightarrow> nat \<Rightarrow> error + bool list" where
  "read_ctx_mask a m n =
     (case ctx_masks a of
        None \<Rightarrow> Inr (replicate n False)
      | Some c \<Rightarrow> index_mask n (pick m c))"

definition read_sulc :: "args \<Rightarrow> hemi \<Rightarrow> nat \<Rightarrow> error + real list" where
  "read_sulc a m n =
     (case sulc_maps a of
        None \<Rightarrow> Inr (replicate n (1 / 2))
      | Some s \<Rightarrow>
          if length (pick m s) \<noteq> n then Inl ValueError_sulc else Inr (pick m s))"

text \<open>
  \<^verbatim>\<open>to_rgba_array(c)\<close> of an RGBA colour is that colour; \<^verbatim>\<open>c[0, 3] = label_alpha\<close>
  overwrites its alpha. The loop runs this again for the second hemisphere, on colours
  that already carry the alpha, with the same result.
\<close>

definition set_alpha :: "real \<Rightarrow> rgba \<Rightarrow> rgba" where
  "set_alpha alpha c = (case c of (r, g, b, _) \<Rightarrow> (r, g, b, alpha))"

definition read_labels :: "args \<Rightarrow> hemi \<Rightarrow> nat \<Rightarrow> error + (rgba list \<times> bool list list)" where
  "read_labels a m n =
     (case labels a of
        None \<Rightarrow> Inr (case label_colors a of None \<Rightarrow> [] | Some cs \<Rightarrow> cs, [])
      | Some ls \<Rightarrow>
          (case label_colors a of
             None \<Rightarrow> Inl TypeError
           | Some cs \<Rightarrow>
               if length cs \<noteq> length ls then Inl ValueError_labels
               else (case collect (map (\<lambda>label. index_mask n (pick m label)) ls) of
                       Inl e \<Rightarrow> Inl e
                     | Inr masks \<Rightarrow> Inr (map (set_alpha (label_alpha a)) cs, masks))))"

definition read_overlay :: "args \<Rightarrow> hemi \<Rightarrow> nat \<Rightarrow> error + npfloat list option" where
  "read_overlay a m n =
     (case overlays a of
        None \<Rightarrow> Inr None
      | Some ov \<Rightarrow>
          let overlay = pick m ov in
          if length (shape overlay) \<noteq> 1
          then Inl (ValueError_overlay_dims (length (shape overlay)))
          else if hd (shape overlay) \<noteq> n then Inl ValueError_overlay_len
          else Inr (Some (arr_values overlay)))"

definition load_hemi :: "args \<Rightarrow> hemi \<Rightarrow> error + loaded" where
  "load_hemi a m =
     (let mesh = pick m (meshes a); n = length (fst mesh) in
      case mesh_raises mesh of Some e \<Rightarrow> Inl e | None \<Rightarrow>
      case read_ctx_mask a m n of Inl e \<Rightarrow> Inl e | Inr msk \<Rightarrow>
      case read_sulc a m n of Inl e \<Rightarrow> Inl e | Inr sulc \<Rightarrow>
      case read_labels a m n of Inl e \<Rightarrow> Inl e | Inr (colors, masks) \<Rightarrow>
      case read_overlay a m n of Inl e \<Rightarrow> Inl e | Inr overlay \<Rightarrow>
      Inr \<lparr> l_vertices = fst mesh, l_faces = snd mesh, l_mask = msk, l_sulc = sulc,
            l_label_colors = colors, l_label_masks = masks, l_overlay = overlay \<rparr>)"

subsection \<open>Colour compositing of one hemisphere (lines 209-215, 234, 253-296)\<close>

text \<open>
  \<^verbatim>\<open>sulc_faces = np.mean(sulc[faces], axis=1)\<close>, binarised unless all face values are
  equal: \<^verbatim>\<open>sulc_faces[np.where(sulc_faces <= 0)] = 0\<close>,
  \<^verbatim>\<open>sulc_faces[np.where(sulc_faces > 0)] = 1\<close>.
\<close>

definition binarize :: "real list \<Rightarrow> real list" where
  "binarize sf =
     (if Min (set sf) \<noteq> Max (set sf)
      then map (\<lambda>v. if v \<le> 0 then 0 else if 0 < v then 1 else v) sf
      else sf)"

definition raw_sulc_faces :: "loaded \<Rightarrow> real list" where
  "raw_sulc_faces h = map (\<lambda>f. mean3 (take3 (l_sulc h) f)) (l_faces h)"

definition sulc_faces :: "loaded \<Rightarrow> real list" where
  "sulc_faces h = binarize (raw_sulc_faces h)"

text \<open>\<^verbatim>\<open>label_mask_faces = [np.median(L[faces], axis=1) for L in label_masks]\<close>\<close>

definition mask_faces :: "bool list \<Rightarrow> face list \<Rightarrow> real list" where
  "mask_faces msk faces = map (\<lambda>f. median3 (take3 (mask_values msk) f)) faces"

definition label_mask_faces :: "loaded \<Rightarrow> real list list" where
  "label_mask_faces h = map (\<lambda>L. mask_faces L (l_faces h)) (l_label_masks h)"

text \<open>
  \<^verbatim>\<open>face_colors[idx] = f(idx)\<close>: assignment through an index array, one index after
  the other.
\<close>

definition assign_at :: "'a list \<Rightarrow> nat list \<Rightarrow> (nat \<Rightarrow> 'a) \<Rightarrow> 'a list" where
  "assign_at xs idx f = fold (\<lambda>i ys. ys[i := f i]) idx xs"

text \<open>Lines 258-263: the faces inside and outside the cortex mask.\<close>

definition kept_indices :: "args \<Rightarrow> loaded \<Rightarrow> nat list" where
  "kept_indices a h =
     (case ctx_masks a of
        None \<Rightarrow> [0..<length (sulc_faces h)]
      | Some c \<Rightarrow>
          filter (\<lambda>i. 1 / 2 \<le> mask_faces (l_mask h) (l_faces h) ! i) [0..<length (l_faces h)])"

definition masked_indices :: "loaded \<Rightarrow> nat list" where
  "masked_indices h =
     filter (\<lambda>i. mask_faces (l_mask h) (l_faces h) ! i < 1 / 2) [0..<length (l_faces h)]"

text \<open>Lines 267-270: the overlay's face values, by \<^verbatim>\<open>avg_method\<close>.\<close>

definition overlay_faces :: "args \<Rightarrow> loaded \<Rightarrow> npfloat list \<Rightarrow> npfloat list" where
  "overlay_faces a h overlay =
     (case avg_method a of
        Mean \<Rightarrow> map (\<lambda>f. np_mean3 (take3 overlay f)) (l_faces h)
      | Median \<Rightarrow> map (\<lambda>f. np_median3 (take3 overlay f)) (l_faces h))"

text \<open>
  Lines 273-276. \<^verbatim>\<open>vmin\<close> and \<^verbatim>\<open>vmax\<close> are variables of the whole function:
  once assigned they are no longer \<^verbatim>\<open>None\<close>. The pair of them is the state that the
  loop over the hemispheres carries.
\<close>

type_synonym bounds = "npfloat option \<times> npfloat option"

definition new_vmin :: "bounds \<Rightarrow> npfloat list \<Rightarrow> npfloat" where
  "new_vmin st ovf = (case fst st of None \<Rightarrow> nanmin ovf | Some v \<Rightarrow> v)"

definition new_vmax :: "bounds \<Rightarrow> npfloat list \<Rightarrow> npfloat" where
  "new_vmax st ovf = (case snd st of None \<Rightarrow> nanmax ovf | Some v \<Rightarrow> v)"

text \<open>
  Lines 279-281:
  \<^verbatim>\<open>valid_indices = np.where(np.abs(overlay_faces) >= threshold)[0]\<close>
  \<^verbatim>\<open>kept_indices = [i for i in kept_indices if i in valid_indices]\<close>
\<close>

definition valid_indices :: "npfloat list \<Rightarrow> real \<Rightarrow> nat list" where
  "valid_indices ovf t = filter (\<lambda>i. np_ge (np_abs (ovf ! i)) t) [0..<length ovf]"

definition threshold_kept :: "nat list \<Rightarrow> npfloat list \<Rightarrow> real option \<Rightarrow> nat list" where
  "threshold_kept kept ovf thr =
     (case thr of
        None \<Rightarrow> kept
      | Some t \<Rightarrow> filter (\<lambda>i. i \<in> set (valid_indices ovf t)) kept)"

text \<open>
  Lines 284-285: \<^verbatim>\<open>overlay_faces = (overlay_faces - vmin) / (vmax - vmin)\<close>
\<close>

definition normalized :: "npfloat \<Rightarrow> npfloat \<Rightarrow> npfloat list \<Rightarrow> npfloat list" where
  "normalized lo hi ovf = map (\<lambda>v. np_div (np_sub v lo) (np_sub hi lo)) ovf"

definition overlay_kept :: "args \<Rightarrow> loaded \<Rightarrow> npfloat list \<Rightarrow> nat list" where
  "overlay_kept a h overlay =
     threshold_kept (kept_indices a h) (overlay_faces a h overlay) (threshold a)"

definition overlay_colors :: "args \<Rightarrow> loaded \<Rightarrow> bounds \<Rightarrow> npfloat list \<Rightarrow> rgba list" where
  "overlay_colors a h st overlay =
     (let ovf = overlay_faces a h overlay in
      map (cmap a) (normalized (new_vmin st ovf) (new_vmax st ovf) ovf))"

text \<open>Lines 265-286: the overlay stage, with the bounds it leaves behind.\<close>

definition overlay_stage :: "args \<Rightarrow> loaded \<Rightarrow> bounds \<Rightarrow> rgba list \<Rightarrow> rgba list \<times> bounds" where
  "overlay_stage a h st face_colors =
     (case l_overlay h of
        None \<Rightarrow> (face_colors, st)
      | Some overlay \<Rightarrow>
          let ovf = overlay_faces a h overlay in
          (assign_at face_colors (overlay_kept a h overlay)
             (\<lambda>i. overlay_colors a h st overlay ! i),
           (Some (new_vmin st ovf), Some (new_vmax st ovf))))"

text \<open>Lines 289-290: \<^verbatim>\<open>face_colors[masked_indices] = [0.85, 0.85, 0.85, 1]\<close>\<close>

definition light_grey :: rgba where
  "light_grey = (85 / 100, 85 / 100, 85 / 100, 1)"

definition mask_stage :: "args \<Rightarrow> loaded \<Rightarrow> rgba list \<Rightarrow> rgba list" where
  "mask_stage a h face_colors =
     (case ctx_masks a of
        None \<Rightarrow> face_colors
      | Some c \<Rightarrow> assign_at face_colors (masked_indices h) (\<lambda>i. light_grey))"

text \<open>
  Lines 293-296, for each label in input order:
  \<^verbatim>\<open>L_idx = np.where(L >= 0.5)\<close>
  \<^verbatim>\<open>face_colors[L_idx] = face_colors[L_idx] * label_colors[i]\<close>
\<close>

definition rgba_mul :: "rgba \<Rightarrow> rgba \<Rightarrow> rgba" where
  "rgba_mul x y =
     (case x of (r, g, b, al) \<Rightarrow> case y of (r', g', b', al') \<Rightarrow> (r * r', g * g', b * b', al * al'))"

definition apply_label :: "real list \<times> rgba \<Rightarrow> rgba list \<Rightarrow> rgba list" where
  "apply_label lc face_colors =
     (case lc of (L, color) \<Rightarrow>
        assign_at face_colors (filter (\<lambda>i. 1 / 2 \<le> L ! i) [0..<length L])
          (\<lambda>i. rgba_mul (face_colors ! i) color))"

definition label_stage :: "loaded \<Rightarrow> rgba list \<Rightarrow> rgba list" where
  "label_stage h face_colors =
     fold apply_label (zip (label_mask_faces h) (l_label_colors h)) face_colors"

text \<open>
  Lines 253-296 in order: greyscale base, overlay, cortex mask, labels. The narrowed
  greyscale colormap \<^verbatim>\<open>greys_narrow\<close> is matplotlib's; it is a parameter here.
\<close>

definition base_colors :: "(real \<Rightarrow> rgba) \<Rightarrow> loaded \<Rightarrow> rgba list" where
  "base_colors greys_narrow h = map greys_narrow (sulc_faces h)"

definition composite :: "(real \<Rightarrow> rgba) \<Rightarrow> args \<Rightarrow> loaded \<Rightarrow> bounds \<Rightarrow> rgba list \<times> bounds" where
  "composite greys_narrow a h st =
     (case overlay_stage a h st (base_colors greys_narrow h) of
        (face_colors, st') \<Rightarrow> (label_stage h (mask_stage a h face_colors), st'))"

text \<open>Lines 298-300: the lighting multiply on R, G and B, for finite shaded values.\<close>

definition apply_intensity :: "rgba list \<Rightarrow> real list \<Rightarrow> rgba list" where
  "apply_intensity face_colors intensity =
     map (\<lambda>(c, s). case c of (r, g, b, al) \<Rightarrow> (r * s, g * s, b * s, al)) (zip face_colors intensity)"

subsection \<open>The loop over the hemispheres and the colorbar (lines 166-377)\<close>








subsection \<open>Colours of the labels over a face\<close>

text \<open>
  The colours (alpha already set) of the labels whose reduced mask at face \<open>f\<close> is at
  least 0.5, in label input order.
\<close>

definition covering_colors :: "loaded \<Rightarrow> nat \<Rightarrow> rgba list" where
  "covering_colors h f =
     map snd (filter (\<lambda>lc. 1 / 2 \<le> fst lc ! f) (zip (label_mask_faces h) (l_label_colors h)))"

subsection \<open>The checks of \<^verbatim>\<open>plot_surf4\<close> as conditions on its arguments\<close>










subsection \<open>Lighting (lines 177-183)\<close>

text \<open>
  \<^verbatim>\<open>light = np.array([0, 0, 1])\<close>, \<^verbatim>\<open>intensity = np.dot(face_normals, light)\<close>,
  \<^verbatim>\<open>shading = 0.7\<close>.
\<close>

definition light :: vec3 where
  "light = (0, 0, 1)"

definition dot :: "vec3 \<Rightarrow> vec3 \<Rightarrow> real" where
  "dot a b = vx a * vx b + vy a * vy b + vz a * vz b"

definition face_intensity :: "vec3 list \<Rightarrow> real list" where
  "face_intensity face_normals = map (\<lambda>n. dot n light) face_normals"

definition shading :: real where
  "shading = 7 / 10"

text \<open>
  \<^verbatim>\<open>np.percentile(x, 80)\<close> with numpy's default linear interpolation: in the sorted
  array, the value at the fractional index \<open>0.8 * (n - 1)\<close>. Its floor is
  \<open>4 * (n - 1) div 5\<close> and its fractional part \<open>(4 * (n - 1) mod 5) / 5\<close>.
\<close>

definition percentile80 :: "real list \<Rightarrow> real" where
  "percentile80 xs =
     (let s = sort xs; n = length xs; k = 4 * (n - 1);
          lo = k div 5; hi = min (lo + 1) (n - 1); g = real (k mod 5) / 5
      in s ! lo + g * (s ! hi - s ! lo))"

text \<open>
  \<^verbatim>\<open>denom = np.percentile(intensity, 80) - np.min(intensity)\<close>
  \<^verbatim>\<open>intensity = (1 - shading) + shading * (intensity - np.min(intensity)) / denom\<close>
  \<^verbatim>\<open>intensity[intensity > 1] = 1\<close>
  \<^verbatim>\<open>np.min\<close> of an empty array raises. The division is numpy's: a zero \<^verbatim>\<open>denom\<close>
  gives inf for a positive numerator and nan for a zero one, with a warning and no
  exception, so the shaded values are floats with nan and inf. The comparison
  \<^verbatim>\<open>intensity > 1\<close> is false for nan and true for inf.
\<close>

definition shade :: "real list \<Rightarrow> error + npfloat list" where
  "shade intensity =
     (if intensity = [] then Inl NumpyValueError
      else
        let mn = Min (set intensity); denom = percentile80 intensity - mn in
        Inr (map (\<lambda>x. let y = np_add (Fin (1 - shading))
                                  (np_div (Fin (shading * (x - mn))) (Fin denom))
                          in if np_gt y 1 then Fin 1 else y) intensity))"

subsection \<open>Camera matrices (lines 28-65)\<close>

text \<open>
  A 4x4 matrix is the tuple of its rows. \<^verbatim>\<open>frustum\<close> fills a zero matrix; its
  \<^verbatim>\<open>float32\<close> rounding is not modelled.
\<close>

type_synonym vec4 = "real \<times> real \<times> real \<times> real"
type_synonym mat4 = "vec4 \<times> vec4 \<times> vec4 \<times> vec4"

definition row_dot :: "vec4 \<Rightarrow> vec4 \<Rightarrow> real" where
  "row_dot r v =
     (case r of (a, b, c, d) \<Rightarrow> case v of (x, y, z, w) \<Rightarrow> a * x + b * y + c * z + d * w)"

definition mat_vec :: "mat4 \<Rightarrow> vec4 \<Rightarrow> vec4" where
  "mat_vec M v = (case M of (r0, r1, r2, r3) \<Rightarrow> (row_dot r0 v, row_dot r1 v, row_dot r2 v, row_dot r3 v))"

definition column :: "nat \<Rightarrow> mat4 \<Rightarrow> vec4" where
  "column j M =
     (let pick4 = (\<lambda>r. case r of (a, b, c, d) \<Rightarrow>
                     if j = 0 then a else if j = 1 then b else if j = 2 then c else d)
      in case M of (r0, r1, r2, r3) \<Rightarrow> (pick4 r0, pick4 r1, pick4 r2, pick4 r3))"

definition row_mat :: "vec4 \<Rightarrow> mat4 \<Rightarrow> vec4" where
  "row_mat r B = (row_dot r (column 0 B), row_dot r (column 1 B), row_dot r (column 2 B),
                  row_dot r (column 3 B))"

text \<open>\<^verbatim>\<open>A @ B\<close>\<close>

definition mat_mul :: "mat4 \<Rightarrow> mat4 \<Rightarrow> mat4" where
  "mat_mul A B = (case A of (r0, r1, r2, r3) \<Rightarrow> (row_mat r0 B, row_mat r1 B, row_mat r2 B, row_mat r3 B))"

definition frustum :: "real \<Rightarrow> real \<Rightarrow> real \<Rightarrow> real \<Rightarrow> real \<Rightarrow> real \<Rightarrow> mat4" where
  "frustum lft rgt btm tp znear zfar =
     ((2 * znear / (rgt - lft), 0, (rgt + lft) / (rgt - lft), 0),
      (0, 2 * znear / (tp - btm), 0, 0),
      (0, (tp + btm) / (tp - btm), - (zfar + znear) / (zfar - znear),
         - 2 * znear * zfar / (zfar - znear)),
      (0, 0, - 1, 0))"

definition radians :: "real \<Rightarrow> real" where
  "radians deg = deg * pi / 180"

definition perspective :: "real \<Rightarrow> real \<Rightarrow> real \<Rightarrow> real \<Rightarrow> mat4" where
  "perspective fovy aspect znear zfar =
     (let h = tan (1 / 2 * radians fovy) * znear; w = h * aspect
      in frustum (- w) w (- h) h znear zfar)"

definition translate :: "real \<Rightarrow> real \<Rightarrow> real \<Rightarrow> mat4" where
  "translate x y z = ((1, 0, 0, x), (0, 1, 0, y), (0, 0, 1, z), (0, 0, 0, 1))"

definition xrotate :: "real \<Rightarrow> mat4" where
  "xrotate theta =
     (let t = pi * theta / 180; c = cos t; s = sin t
      in ((1, 0, 0, 0), (0, c, - s, 0), (0, s, c, 0), (0, 0, 0, 1)))"

definition yrotate :: "real \<Rightarrow> mat4" where
  "yrotate theta =
     (let t = pi * theta / 180; c = cos t; s = sin t
      in ((c, 0, s, 0), (0, 1, 0, 0), (- s, 0, c, 0), (0, 0, 0, 1)))"

text \<open>
  Lines 305-310:
  \<^verbatim>\<open>MVP = perspective(25, 1, 1, 100) @ translate(0, 0, -3) @ yrotate(view) @ xrotate(270)\<close>
\<close>

definition MVP :: "real \<Rightarrow> mat4" where
  "MVP view =
     mat_mul (mat_mul (mat_mul (perspective 25 1 1 100) (translate 0 0 (- 3))) (yrotate view))
       (xrotate 270)"

subsection \<open>Projection and depth sort of one view (lines 312-321)\<close>

text \<open>
  \<^verbatim>\<open>V = np.c_[vertices, np.ones(len(vertices))] @ MVP.T\<close>: every vertex, with a 1
  appended, is multiplied by \<^verbatim>\<open>MVP\<close>. \<^verbatim>\<open>V /= V[:, 3].reshape(-1, 1)\<close> divides
  each row by its fourth component; a zero there gives nan or inf.
\<close>

definition clip_coords :: "real \<Rightarrow> vec3 \<Rightarrow> vec4" where
  "clip_coords view v = mat_vec (MVP view) (vx v, vy v, vz v, 1)"

definition clip_w :: "real \<Rightarrow> vec3 \<Rightarrow> real" where
  "clip_w view v = (case clip_coords view v of (x, y, z, w) \<Rightarrow> w)"

definition perspective_divide :: "vec4 \<Rightarrow> error + vec4" where
  "perspective_divide c =
     (case c of (x, y, z, w) \<Rightarrow>
        if w = 0 then Inl NonFinite else Inr (x / w, y / w, z / w, w / w))"

definition project_vertices :: "real \<Rightarrow> vec3 list \<Rightarrow> error + vec4 list" where
  "project_vertices view vertices =
     collect (map (\<lambda>v. perspective_divide (clip_coords view v)) vertices)"

text \<open>
  \<^verbatim>\<open>T = V[:, :, :2]\<close>, the screen triangle, and
  \<^verbatim>\<open>Z = -V[:, :, 2].mean(axis=1)\<close>, the depth key.
\<close>

type_synonym tri2 = "(real \<times> real) \<times> (real \<times> real) \<times> (real \<times> real)"

definition xy :: "vec4 \<Rightarrow> real \<times> real" where
  "xy c = (case c of (x, y, z, w) \<Rightarrow> (x, y))"

definition ndc_z :: "vec4 \<Rightarrow> real" where
  "ndc_z c = (case c of (x, y, z, w) \<Rightarrow> z)"

definition screen_triangle :: "vec4 \<times> vec4 \<times> vec4 \<Rightarrow> tri2" where
  "screen_triangle t = (case t of (p, q, r) \<Rightarrow> (xy p, xy q, xy r))"

definition depth_key :: "vec4 \<times> vec4 \<times> vec4 \<Rightarrow> real" where
  "depth_key t = (case t of (p, q, r) \<Rightarrow> - ((ndc_z p + ndc_z q + ndc_z r) / 3))"

text \<open>
  \<^verbatim>\<open>np.argsort(Z)\<close>: the indices in ascending order of their keys. numpy does not fix
  the order of equal keys; this model keeps them in index order.
\<close>

definition argsort :: "real list \<Rightarrow> nat list" where
  "argsort Z = sort_key (\<lambda>i. Z ! i) [0..<length Z]"

text \<open>
  \<^verbatim>\<open>Zorder = np.argsort(Z)\<close>, \<^verbatim>\<open>T, C = T[Zorder, :], face_colors[Zorder, :]\<close>:
  the triangles and colours handed to the polygon collection, in paint order.
\<close>

definition draw_view ::
  "real \<Rightarrow> vec3 list \<Rightarrow> face list \<Rightarrow> rgba list \<Rightarrow> error + (tri2 list \<times> rgba list)" where
  "draw_view view vertices faces face_colors =
     (case project_vertices view vertices of
        Inl e \<Rightarrow> Inl e
      | Inr V \<Rightarrow>
          (case gather V faces of
             Inl e \<Rightarrow> Inl e
           | Inr tris \<Rightarrow>
               let T = map screen_triangle tris;
                   Z = map depth_key tris;
                   Zorder = argsort Z
               in Inr (map (\<lambda>i. T ! i) Zorder, map (\<lambda>i. face_colors ! i) Zorder)))"

text \<open>The depth keys of a mesh in a view, for stating what the sort does.\<close>

definition ndc :: "real \<Rightarrow> vec3 \<Rightarrow> vec4" where
  "ndc view v =
     (case clip_coords view v of (x, y, z, w) \<Rightarrow> (x / w, y / w, z / w, w / w))"

definition depth_keys :: "real \<Rightarrow> vec3 list \<Rightarrow> face list \<Rightarrow> real list" where
  "depth_keys view vertices faces = map (\<lambda>f. depth_key (take3 (map (ndc view) vertices) f)) faces"

definition paint_order :: "real \<Rightarrow> vec3 list \<Rightarrow> face list \<Rightarrow> nat list" where
  "paint_order view vertices faces = argsort (depth_keys view vertices faces)"

text \<open>
  The fourth clip coordinate of a vertex is its depth in front of the camera (the
  camera looks down the negative z axis, and \<^verbatim>\<open>M[3, 2] = -1\<close>). A face is farther
  than another when each of its vertices is deeper than every vertex of the other, all
  in front of the camera.
\<close>

definition face_depths :: "real \<Rightarrow> vec3 list \<Rightarrow> face \<Rightarrow> real list" where
  "face_depths view vertices f =
     (case f of (p, q, r) \<Rightarrow>
        [clip_w view (vertices ! p), clip_w view (vertices ! q), clip_w view (vertices ! r)])"

definition farther :: "real \<Rightarrow> vec3 list \<Rightarrow> face \<Rightarrow> face \<Rightarrow> bool" where
  "farther view vertices f f' =
     list_all (\<lambda>d. list_all (\<lambda>d'. 0 < d' \<and> d' < d) (face_depths view vertices f'))
       (face_depths view vertices f)"

subsection \<open>Concrete inputs used by the witnesses\<close>

definition tiny_mesh :: "vec3 list" where
  "tiny_mesh = [(0, 0, 0), (1 / 10 ^ 6, 0, 0), (0, 1 / 10 ^ 6, 0)]"

definition tiny_face :: face where
  "tiny_face = (0, 1, 2)"

definition flat_face :: face where
  "flat_face = (0, 0, 1)"

text \<open>
  A two-face mesh used for both hemispheres, with a sulcal map, a cortex mask, one label
  and a different overlay on each side.
\<close>

definition w_mesh :: mesh where
  "w_mesh = ([(0, 0, 0), (1, 0, 0), (0, 1, 0), (0, 0, 1)], [(0, 1, 2), (1, 2, 3)])"

definition w_cmap :: "npfloat \<Rightarrow> rgba" where
  "w_cmap v = (case v of Fin x \<Rightarrow> (x, x / 2, 1 - x, 1) | PInf \<Rightarrow> (1, 1, 1, 1)
               | NInf \<Rightarrow> (0, 0, 0, 1) | NaN \<Rightarrow> (0, 0, 0, 0))"

definition w_greys :: "real \<Rightarrow> rgba" where
  "w_greys x = (42 / 100 + 16 / 100 * x, 42 / 100 + 16 / 100 * x, 42 / 100 + 16 / 100 * x, 1)"

definition w_cortex :: "nat list" where
  "w_cortex = [0, 1, 2]"

definition w_label :: "nat list" where
  "w_label = [0, 1]"

definition w_args :: args where
  "w_args = \<lparr> meshes = (w_mesh, w_mesh),
              overlays = Some (Arr1 [Fin 0, Fin 3, Fin 6, Fin 9], Arr1 [Fin 3, Fin 6, Fin 9, Fin 12]),
              sulc_maps = Some ([- 3, 0, 0, 6], [- 3, 0, 0, 6]),
              ctx_masks = Some (w_cortex, w_cortex),
              labels = Some [(w_label, w_label)],
              label_colors = Some [(1, 1 / 2, 0, 1)],
              label_alpha = 1 / 2,
              cmap = w_cmap,
              threshold = None,
              vmin = None,
              vmax = None,
              avg_method = Mean,
              colorbar = False \<rparr>"

definition w_loaded :: "npfloat list \<Rightarrow> loaded" where
  "w_loaded ov = \<lparr> l_vertices = fst w_mesh, l_faces = snd w_mesh,
                     l_mask = [True, True, True, False],
                     l_sulc = [- 3, 0, 0, 6],
                     l_label_colors = [(1, 1 / 2, 0, 1 / 2)],
                     l_label_masks = [[True, True, False, False]],
                     l_overlay = Some ov \<rparr>"

text \<open>The same arguments with two labels: the second covers both faces.\<close>

definition w_args2 :: args where
  "w_args2 = w_args\<lparr> labels := Some [(w_label, w_label), (w_cortex, w_cortex)],
                       label_colors := Some [(1 / 2, 1 / 2, 1, 1), (1 / 3, 1, 1 / 2, 1)] \<rparr>"

definition w_lh2 :: loaded where
  "w_lh2 = (w_loaded [Fin 0, Fin 3, Fin 6, Fin 9])
             \<lparr> l_label_colors := [(1 / 2, 1 / 2, 1, 1 / 2), (1 / 3, 1, 1 / 2, 1 / 2)],
               l_label_masks := [[True, True, False, False], [True, True, True, False]] \<rparr>"

definition w_lh :: loaded where
  "w_lh = w_loaded [Fin 0, Fin 3, Fin 6, Fin 9]"





text \<open>
  Two vertices on the x axis, at the binary64 number nearest to \<open>-0.1\<close> and at \<open>-1\<close>.
\<close>

definition tenth_mesh :: "vec3 list" where
  "tenth_mesh = [(- 3602879701896397 / 36028797018963968, 0, 0), (- 1, 0, 0)]"

definition w_intensity :: "real list" where
  "w_intensity = [0, 1, - 1, 1 / 2, - (1 / 2)]"

text \<open>Two triangles at different depths for the view angle 90.\<close>

definition near_far_vertices :: "vec3 list" where
  "near_far_vertices = [(- (1 / 2), 0, 0), (- (1 / 2), 1 / 2, 0), (- (1 / 2), 0, 1 / 2),
                        (1 / 2, 0, 0), (1 / 2, 1 / 2, 0), (1 / 2, 0, 1 / 2)]"

definition near_face :: face where
  "near_face = (0, 1, 2)"

definition far_face :: face where
  "far_face = (3, 4, 5)"

subsection \<open>The rounding error of binary64\<close>

lemma pow2_powr: "pow2 e = 2 powr (of_int e)"
proof (cases "0 \<le> e")
  case True
  then have "2 powr (of_int e) = (2::real) powr (real (nat e))" by simp
  also have "\<dots> = 2 ^ nat e" by (rule powr_realpow) simp
  finally show ?thesis using True by (simp add: pow2_def)
next
  case False
  then have "(2::real) powr (of_int e) = 2 powr (- real (nat (- e)))" by simp
  also have "\<dots> = 1 / 2 powr (real (nat (- e)))" by (simp add: powr_minus divide_inverse)
  also have "\<dots> = 1 / 2 ^ nat (- e)" by (simp add: powr_realpow)
  finally show ?thesis using False by (simp add: pow2_def)
qed

lemma pow2_pos: "0 < pow2 e"
  by (simp add: pow2_powr)

lemma pow2_shift: "pow2 (e - 52) = pow2 e / 2 ^ 52"
proof -
  have "pow2 (e - 52) = 2 powr (of_int e - 52)" by (simp add: pow2_powr)
  also have "\<dots> = 2 powr (of_int e) / 2 powr 52" by (rule powr_diff)
  also have "(2::real) powr 52 = 2 ^ 52" using powr_realpow [of 2 52] by simp
  finally show ?thesis by (simp add: pow2_powr)
qed

lemma ilog2_lower:
  assumes "0 < a"
  shows "pow2 (ilog2 a) \<le> a"
proof (cases "1 \<le> a")
  case True
  then have pos: "0 < \<lfloor>a\<rfloor>" by linarith
  then have k: "1 \<le> bitlen \<lfloor>a\<rfloor>"
    using bitlen_eq_zero_iff [of "\<lfloor>a\<rfloor>"] bitlen_nonneg [of "\<lfloor>a\<rfloor>"] by linarith
  from bitlen_bounds [OF pos] have "(2::int) ^ nat (bitlen \<lfloor>a\<rfloor> - 1) \<le> \<lfloor>a\<rfloor>" by simp
  then have "real_of_int (2 ^ nat (bitlen \<lfloor>a\<rfloor> - 1)) \<le> real_of_int \<lfloor>a\<rfloor>"
    by (rule iffD2 [OF of_int_le_iff])
  then have "(2::real) ^ nat (bitlen \<lfloor>a\<rfloor> - 1) \<le> a" by (simp add: le_floor_iff)
  then show ?thesis using True k by (simp add: ilog2_def pow2_def)
next
  case False
  define b where "b = 1 / a"
  define m where "m = \<lceil>b\<rceil> - 1"
  have b: "1 < b" using assms False by (simp add: b_def)
  then have "2 \<le> \<lceil>b\<rceil>" by linarith
  then have pos: "0 < m" by (simp add: m_def)
  then have k: "1 \<le> bitlen m"
    using bitlen_eq_zero_iff [of m] bitlen_nonneg [of m] by linarith
  from bitlen_bounds [OF pos] have "m < 2 ^ nat (bitlen m)" by simp
  then have "\<lceil>b\<rceil> \<le> 2 ^ nat (bitlen m)" by (simp add: m_def)
  then have "real_of_int \<lceil>b\<rceil> \<le> real_of_int (2 ^ nat (bitlen m))"
    by (rule iffD2 [OF of_int_le_iff])
  moreover have "b \<le> real_of_int \<lceil>b\<rceil>" by (rule le_of_int_ceiling)
  moreover have "real_of_int (2 ^ nat (bitlen m)) = 2 ^ nat (bitlen m)" by simp
  ultimately have "b \<le> 2 ^ nat (bitlen m)" by linarith
  then have "1 / 2 ^ nat (bitlen m) \<le> a"
    using assms by (simp add: b_def field_simps)
  then show ?thesis using False k by (simp add: ilog2_def pow2_def m_def b_def)
qed

lemma round_half_even_error: "\<bar>of_int (round_half_even y) - y\<bar> \<le> 1 / 2"
proof -
  have "of_int \<lfloor>y\<rfloor> \<le> y" "y < of_int \<lfloor>y\<rfloor> + 1" by linarith+
  then show ?thesis
    by (auto simp: round_half_even_def Let_def)
qed

lemma fl64_error: "\<bar>fl64 x - x\<bar> \<le> \<bar>x\<bar> / 2 ^ 53"
proof (cases "x = 0")
  case True
  then show ?thesis by (simp add: fl64_def)
next
  case False
  define e where "e = ilog2 \<bar>x\<bar> - 52"
  define p where "p = pow2 e"
  define n where "n = round_half_even (x / p)"
  have p: "0 < p" by (simp add: p_def pow2_pos)
  have fl: "fl64 x = of_int n * p"
    using False by (simp add: fl64_def Let_def e_def p_def n_def)
  have "\<bar>of_int n - x / p\<bar> \<le> 1 / 2" unfolding n_def by (rule round_half_even_error)
  then have "\<bar>of_int n - x / p\<bar> * p \<le> 1 / 2 * p"
    using p by (intro mult_right_mono) simp_all
  moreover have "\<bar>of_int n - x / p\<bar> * p = \<bar>of_int n * p - x\<bar>"
  proof -
    have "\<bar>of_int n - x / p\<bar> * p = \<bar>(of_int n - x / p) * p\<bar>"
      using p by (simp add: abs_mult)
    also have "(of_int n - x / p) * p = of_int n * p - x"
      using p by (simp add: field_simps)
    finally show ?thesis .
  qed
  ultimately have err: "\<bar>fl64 x - x\<bar> \<le> p / 2" by (simp add: fl)
  have "p = pow2 (ilog2 \<bar>x\<bar>) / 2 ^ 52" unfolding p_def e_def by (rule pow2_shift)
  moreover have "pow2 (ilog2 \<bar>x\<bar>) \<le> \<bar>x\<bar>" using False by (intro ilog2_lower) simp
  ultimately have "p / 2 \<le> \<bar>x\<bar> / 2 ^ 53" by simp
  with err show ?thesis by linarith
qed


subsection \<open>The normalizer centres and bounds the mesh up to rounding\<close>

lemma Min_le_Max_list:
  fixes xs :: "real list"
  assumes "xs \<noteq> []"
  shows "Min (set xs) \<le> Max (set xs)"
  using assms by (simp add: Min_le_iff)

lemma Max_affine:
  fixes xs :: "real list"
  assumes "xs \<noteq> []" "0 < r"
  shows "Max (set (map (\<lambda>x. (x - c) / r) xs)) = (Max (set xs) - c) / r"
proof -
  have m: "mono (\<lambda>x. (x - c) / r)"
    using assms(2) by (auto simp: mono_def divide_right_mono)
  have "(Max (set xs) - c) / r = Max ((\<lambda>x. (x - c) / r) ` set xs)"
    using mono_Max_commute [OF m, of "set xs"] assms(1) by simp
  then show ?thesis by simp
qed

lemma Min_affine:
  fixes xs :: "real list"
  assumes "xs \<noteq> []" "0 < r"
  shows "Min (set (map (\<lambda>x. (x - c) / r) xs)) = (Min (set xs) - c) / r"
proof -
  have m: "mono (\<lambda>x. (x - c) / r)"
    using assms(2) by (auto simp: mono_def divide_right_mono)
  have "(Min (set xs) - c) / r = Min ((\<lambda>x. (x - c) / r) ` set xs)"
    using mono_Min_commute [OF m, of "set xs"] assms(1) by simp
  then show ?thesis by simp
qed

lemma Max_close:
  fixes f g :: "'a \<Rightarrow> real"
  assumes "xs \<noteq> []" and "\<forall>x \<in> set xs. \<bar>f x - g x\<bar> \<le> h"
  shows "\<bar>Max (set (map f xs)) - Max (set (map g xs))\<bar> \<le> h"
proof -
  have fin: "finite (f ` set xs)" "finite (g ` set xs)" by simp_all
  have ne: "f ` set xs \<noteq> {}" "g ` set xs \<noteq> {}" using assms(1) by simp_all
  from Max_in [OF fin(1) ne(1)] obtain a where a: "a \<in> set xs" "Max (f ` set xs) = f a" by auto
  from Max_in [OF fin(2) ne(2)] obtain b where b: "b \<in> set xs" "Max (g ` set xs) = g b" by auto
  have "f a \<le> g a + h" using assms(2) a(1) by (auto simp: abs_le_iff)
  also have "g a \<le> Max (g ` set xs)" using a(1) by simp
  finally have 1: "Max (f ` set xs) \<le> Max (g ` set xs) + h" by (simp add: a(2))
  have "g b \<le> f b + h" using assms(2) b(1) by (auto simp: abs_le_iff)
  also have "f b \<le> Max (f ` set xs)" using b(1) by simp
  finally have 2: "Max (g ` set xs) \<le> Max (f ` set xs) + h" by (simp add: b(2))
  from 1 2 show ?thesis by (simp add: abs_le_iff)
qed

lemma Min_close:
  fixes f g :: "'a \<Rightarrow> real"
  assumes "xs \<noteq> []" and "\<forall>x \<in> set xs. \<bar>f x - g x\<bar> \<le> h"
  shows "\<bar>Min (set (map f xs)) - Min (set (map g xs))\<bar> \<le> h"
proof -
  have fin: "finite (f ` set xs)" "finite (g ` set xs)" by simp_all
  have ne: "f ` set xs \<noteq> {}" "g ` set xs \<noteq> {}" using assms(1) by simp_all
  from Min_in [OF fin(1) ne(1)] obtain a where a: "a \<in> set xs" "Min (f ` set xs) = f a" by auto
  from Min_in [OF fin(2) ne(2)] obtain b where b: "b \<in> set xs" "Min (g ` set xs) = g b" by auto
  have "Min (g ` set xs) \<le> g a" using a(1) by simp
  also have "g a \<le> f a + h" using assms(2) a(1) by (auto simp: abs_le_iff)
  finally have 1: "Min (g ` set xs) \<le> Min (f ` set xs) + h" by (simp add: a(2))
  have "Min (f ` set xs) \<le> f b" using b(1) by simp
  also have "f b \<le> g b + h" using assms(2) b(1) by (auto simp: abs_le_iff)
  finally have 2: "Min (f ` set xs) \<le> Min (g ` set xs) + h" by (simp add: b(2))
  from 1 2 show ?thesis by (simp add: abs_le_iff)
qed

text \<open>One coordinate: the rounded result against the exact quotient.\<close>

lemma rounded_coordinate:
  fixes fl :: "real \<Rightarrow> real"
  assumes fl: "\<And>x. \<bar>fl x - x\<bar> \<le> u * \<bar>x\<bar>" and u0: "0 \<le> u" and u8: "u \<le> 1 / 8"
    and mx: "m \<le> x" "x \<le> M" and R: "0 < R" and ext: "fl (M - m) \<le> R"
  shows "\<bar>fl (fl (x - fl (fl (M + m) / 2)) / R) - (x - (M + m) / 2) / R\<bar>
           \<le> u * (5 / 4 + 3 * (\<bar>M + m\<bar> / (2 * R)))"
    and "\<bar>(x - (M + m) / 2) / R\<bar> \<le> 1 / 2 + 3 / 4 * u"
proof -
  define S where "S = M + m"
  define E where "E = (M - m) / 2"
  define s where "s = fl S"
  define c where "c = fl (s / 2)"
  define d where "d = fl (x - c)"
  define y where "y = fl (d / R)"
  define w where "w = 2 * u + u * u"
  define C where "C = \<bar>S\<bar> / 2"
  define K where "K = C / R"
  have E0: "0 \<le> E" using mx by (simp add: E_def)
  have C0: "0 \<le> C" by (simp add: C_def)
  have K0: "0 \<le> K" using C0 R by (simp add: K_def)
  have w0: "0 \<le> w" using u0 by (simp add: w_def)
  have s1: "\<bar>s - S\<bar> \<le> u * \<bar>S\<bar>" unfolding s_def by (rule fl)
  then have s2: "\<bar>s\<bar> \<le> (1 + u) * \<bar>S\<bar>" by (simp add: algebra_simps)
  have c1: "\<bar>c - s / 2\<bar> \<le> u * \<bar>s / 2\<bar>" unfolding c_def by (rule fl)
  have "u * \<bar>s / 2\<bar> = u * \<bar>s\<bar> / 2" by simp
  also have "\<dots> \<le> u * ((1 + u) * \<bar>S\<bar>) / 2"
    using s2 u0 by (simp add: mult_left_mono)
  finally have c2: "\<bar>c - s / 2\<bar> \<le> u * ((1 + u) * \<bar>S\<bar>) / 2" using c1 by linarith
  have "c - S / 2 = (c - s / 2) + (s - S) / 2" by (simp add: field_simps)
  then have "\<bar>c - S / 2\<bar> \<le> \<bar>c - s / 2\<bar> + \<bar>(s - S) / 2\<bar>"
    using abs_triangle_ineq [of "c - s / 2" "(s - S) / 2"] by simp
  also have "\<bar>(s - S) / 2\<bar> = \<bar>s - S\<bar> / 2" by simp
  finally have "\<bar>c - S / 2\<bar> \<le> \<bar>c - s / 2\<bar> + \<bar>s - S\<bar> / 2" .
  also have "\<dots> \<le> u * ((1 + u) * \<bar>S\<bar>) / 2 + u * \<bar>S\<bar> / 2"
    using c2 s1 by (intro add_mono divide_right_mono) simp_all
  also have "\<dots> = w * C" by (simp add: w_def C_def field_simps)
  finally have c3: "\<bar>c - S / 2\<bar> \<le> w * C" .
  have xe: "\<bar>x - S / 2\<bar> \<le> E" using mx by (simp add: S_def E_def abs_le_iff field_simps)
  define B where "B = E + w * C"
  have B0: "0 \<le> B" using E0 w0 C0 by (simp add: B_def)
  have xc: "\<bar>x - c\<bar> \<le> B" using xe c3 unfolding B_def by linarith
  have d1: "\<bar>d - (x - c)\<bar> \<le> u * \<bar>x - c\<bar>" unfolding d_def by (rule fl)
  have uxc: "u * \<bar>x - c\<bar> \<le> u * B" using xc u0 by (rule mult_left_mono)
  have d2: "\<bar>d - (x - c)\<bar> \<le> u * B" using d1 uxc by linarith
  have d3: "\<bar>d\<bar> \<le> (1 + u) * B" using d2 xc by (simp add: algebra_simps)
  have y1: "\<bar>y - d / R\<bar> \<le> u * \<bar>d / R\<bar>" unfolding y_def by (rule fl)
  have "u * \<bar>d / R\<bar> = u * \<bar>d\<bar> / R" using R by simp
  also have "\<dots> \<le> u * ((1 + u) * B) / R"
    using d3 u0 R by (simp add: divide_right_mono mult_left_mono)
  finally have y2: "\<bar>y - d / R\<bar> \<le> u * ((1 + u) * B) / R" using y1 by linarith
  have split: "y - (x - S / 2) / R = (y - d / R) + (d - (x - c)) / R + (S / 2 - c) / R"
    using R by (simp add: field_simps)
  have p2: "\<bar>(d - (x - c)) / R\<bar> \<le> u * B / R"
    using d2 R by (simp add: divide_right_mono)
  have p3: "\<bar>(S / 2 - c) / R\<bar> \<le> w * C / R"
  proof -
    have "\<bar>S / 2 - c\<bar> \<le> w * C" using c3 by (simp add: abs_minus_commute)
    then show ?thesis using R by (simp add: divide_right_mono)
  qed
  have "\<bar>y - (x - S / 2) / R\<bar> \<le> \<bar>y - d / R\<bar> + \<bar>(d - (x - c)) / R\<bar> + \<bar>(S / 2 - c) / R\<bar>"
    unfolding split
    using abs_triangle_ineq [of "y - d / R + (d - (x - c)) / R" "(S / 2 - c) / R"]
      abs_triangle_ineq [of "y - d / R" "(d - (x - c)) / R"]
    by linarith
  also have "\<dots> \<le> u * ((1 + u) * B) / R + u * B / R + w * C / R"
    using y2 p2 p3 by (intro add_mono)
  also have "\<dots> = w * (E / R + (1 + w) * K)"
    using R by (simp add: w_def B_def K_def field_simps)
  finally have main: "\<bar>y - (x - S / 2) / R\<bar> \<le> w * (E / R + (1 + w) * K)" .
  have f1: "\<bar>fl (M - m) - (M - m)\<bar> \<le> u * \<bar>M - m\<bar>" by (rule fl)
  have Mm: "0 \<le> M - m" using mx by simp
  have "(1 - u) * (2 * E) \<le> fl (M - m)" using f1 Mm by (simp add: E_def algebra_simps)
  then have RE: "(1 - u) * (2 * E) \<le> R" using ext by linarith
  have "7 / 8 * (2 * E) \<le> (1 - u) * (2 * E)"
    using u8 E0 by (intro mult_right_mono) simp_all
  then have "E \<le> 4 / 7 * R" using RE by linarith
  then have ER: "E / R \<le> 4 / 7" using R by (simp add: field_simps)
  have ER0: "0 \<le> E / R" using E0 R by simp
  have w8: "w \<le> 17 / 8 * u"
  proof -
    have "u * u \<le> 1 / 8 * u" using u8 u0 by (intro mult_right_mono) simp_all
    then show ?thesis by (simp add: w_def)
  qed
  have w64: "1 + w \<le> 81 / 64" using w8 u8 by linarith
  have in1: "E / R + (1 + w) * K \<le> 4 / 7 + 81 / 64 * K"
  proof -
    have "(1 + w) * K \<le> 81 / 64 * K" using w64 K0 by (rule mult_right_mono)
    then show ?thesis using ER by linarith
  qed
  have in0: "0 \<le> E / R + (1 + w) * K" using ER0 w0 K0 by simp
  have "w * (E / R + (1 + w) * K) \<le> (17 / 8 * u) * (4 / 7 + 81 / 64 * K)"
    using w8 in1 w0 in0 by (intro mult_mono) simp_all
  also have "\<dots> = u * (17 / 14 + 1377 / 512 * K)" by (simp add: algebra_simps)
  also have "\<dots> \<le> u * (5 / 4 + 3 * K)"
    using u0 K0 by (intro mult_left_mono) simp_all
  finally have fin: "w * (E / R + (1 + w) * K) \<le> u * (5 / 4 + 3 * K)" .
  have Keq: "K = \<bar>M + m\<bar> / (2 * R)" by (simp add: K_def C_def S_def)
  from main fin have "\<bar>y - (x - S / 2) / R\<bar> \<le> u * (5 / 4 + 3 * K)" by linarith
  then show "\<bar>fl (fl (x - fl (fl (M + m) / 2)) / R) - (x - (M + m) / 2) / R\<bar>
           \<le> u * (5 / 4 + 3 * (\<bar>M + m\<bar> / (2 * R)))"
    unfolding y_def d_def c_def s_def S_def Keq .
  have "\<bar>(x - S / 2) / R\<bar> = \<bar>x - S / 2\<bar> / R" using R by simp
  also have "\<dots> \<le> E / R" using xe R by (simp add: divide_right_mono)
  finally have z1: "\<bar>(x - S / 2) / R\<bar> \<le> E / R" .
  have e1: "E * (1 - u) \<le> R / 2" using RE by (simp add: algebra_simps)
  have "(R / 2 + 3 / 4 * u * R) * (1 - u) - R / 2 = u * R * (1 / 4 - 3 / 4 * u)"
    by (simp add: field_simps)
  moreover have "0 \<le> u * R * (1 / 4 - 3 / 4 * u)"
    using u0 u8 R by (intro mult_nonneg_nonneg) simp_all
  ultimately have e2: "R / 2 \<le> (R / 2 + 3 / 4 * u * R) * (1 - u)" by linarith
  from e1 e2 have "E * (1 - u) \<le> (R / 2 + 3 / 4 * u * R) * (1 - u)" by linarith
  then have "E \<le> R / 2 + 3 / 4 * u * R"
    using u8 by (simp add: mult_le_cancel_right)
  then have "E / R \<le> 1 / 2 + 3 / 4 * u" using R by (simp add: field_simps)
  with z1 show "\<bar>(x - (M + m) / 2) / R\<bar> \<le> 1 / 2 + 3 / 4 * u"
    unfolding S_def by linarith
qed


lemma axis_rounded:
  fixes fl :: "real \<Rightarrow> real" and xs :: "real list"
  assumes fl: "\<And>x. \<bar>fl x - x\<bar> \<le> u * \<bar>x\<bar>" and u0: "0 \<le> u" and u8: "u \<le> 1 / 8"
    and ne: "xs \<noteq> []" and R: "0 < R" and ext: "fl (Max (set xs) - Min (set xs)) \<le> R"
  defines "ys \<equiv> map (\<lambda>x. fl (fl (x - fl (fl (Max (set xs) + Min (set xs)) / 2)) / R)) xs"
  shows "\<forall>y \<in> set ys. \<bar>y\<bar> \<le> 1 / 2 + u * (2 + 3 * (\<bar>Max (set xs) + Min (set xs)\<bar> / (2 * R)))"
    and "\<bar>(Max (set ys) + Min (set ys)) / 2\<bar>
           \<le> u * (2 + 3 * (\<bar>Max (set xs) + Min (set xs)\<bar> / (2 * R)))"
proof -
  define M where "M = Max (set xs)"
  define m where "m = Min (set xs)"
  define K where "K = \<bar>M + m\<bar> / (2 * R)"
  define f where "f = (\<lambda>x. fl (fl (x - fl (fl (M + m) / 2)) / R))"
  define g where "g = (\<lambda>x. (x - (M + m) / 2) / R)"
  have K0: "0 \<le> K" using R by (simp add: K_def)
  have ys: "ys = map f xs" by (simp add: ys_def f_def M_def m_def)
  have close: "\<bar>f x - g x\<bar> \<le> u * (5 / 4 + 3 * K)"
    and small: "\<bar>g x\<bar> \<le> 1 / 2 + 3 / 4 * u" if "x \<in> set xs" for x
  proof -
    have mx: "m \<le> x" "x \<le> M" using that by (simp_all add: M_def m_def)
    have e: "fl (M - m) \<le> R" using ext by (simp add: M_def m_def)
    show "\<bar>f x - g x\<bar> \<le> u * (5 / 4 + 3 * K)"
      unfolding f_def g_def K_def by (rule rounded_coordinate(1) [OF fl u0 u8 mx R e])
    show "\<bar>g x\<bar> \<le> 1 / 2 + 3 / 4 * u"
      unfolding g_def by (rule rounded_coordinate(2) [OF fl u0 u8 mx R e])
  qed
  have le: "u * (5 / 4 + 3 * K) \<le> u * (2 + 3 * K)"
    using u0 by (intro mult_left_mono) simp_all
  have all: "\<forall>y \<in> set ys. \<bar>y\<bar> \<le> 1 / 2 + u * (2 + 3 * K)"
  proof
    fix y assume "y \<in> set ys"
    then obtain x where x: "x \<in> set xs" and y: "y = f x" by (auto simp: ys)
    have "\<bar>f x\<bar> \<le> \<bar>g x\<bar> + \<bar>f x - g x\<bar>" by simp
    also have "\<dots> \<le> (1 / 2 + 3 / 4 * u) + u * (5 / 4 + 3 * K)"
      using close [OF x] small [OF x] by (intro add_mono)
    also have "\<dots> = 1 / 2 + u * (2 + 3 * K)" by (simp add: algebra_simps)
    finally show "\<bar>y\<bar> \<le> 1 / 2 + u * (2 + 3 * K)" by (simp add: y)
  qed
  have cl: "\<forall>x \<in> set xs. \<bar>f x - g x\<bar> \<le> u * (5 / 4 + 3 * K)" using close by blast
  have gmax: "Max (set (map g xs)) = (M - (M + m) / 2) / R"
    unfolding g_def M_def m_def by (rule Max_affine [OF ne R])
  have gmin: "Min (set (map g xs)) = (m - (M + m) / 2) / R"
    unfolding g_def M_def m_def by (rule Min_affine [OF ne R])
  have g0: "Max (set (map g xs)) + Min (set (map g xs)) = 0"
  proof -
    have "(M - (M + m) / 2) / R + (m - (M + m) / 2) / R
        = ((M - (M + m) / 2) + (m - (M + m) / 2)) / R"
      by (simp only: add_divide_distrib)
    also have "(M - (M + m) / 2) + (m - (M + m) / 2) = 0" by simp
    finally show ?thesis unfolding gmax gmin by simp
  qed
  define a where "a = Max (set (map f xs)) - Max (set (map g xs))"
  define b where "b = Min (set (map f xs)) - Min (set (map g xs))"
  have a: "\<bar>a\<bar> \<le> u * (5 / 4 + 3 * K)" unfolding a_def by (rule Max_close [OF ne cl])
  have b: "\<bar>b\<bar> \<le> u * (5 / 4 + 3 * K)" unfolding b_def by (rule Min_close [OF ne cl])
  have "Max (set ys) + Min (set ys) = a + b" using g0 by (simp add: ys a_def b_def)
  then have "\<bar>(Max (set ys) + Min (set ys)) / 2\<bar> = \<bar>a + b\<bar> / 2" by simp
  also have "\<dots> \<le> (\<bar>a\<bar> + \<bar>b\<bar>) / 2" by (intro divide_right_mono abs_triangle_ineq) simp
  also have "\<dots> \<le> (u * (5 / 4 + 3 * K) + u * (5 / 4 + 3 * K)) / 2"
    using a b by (intro divide_right_mono add_mono) simp_all
  also have "\<dots> = u * (5 / 4 + 3 * K)" by simp
  also note le
  finally have centre: "\<bar>(Max (set ys) + Min (set ys)) / 2\<bar> \<le> u * (2 + 3 * K)" .
  from all show "\<forall>y \<in> set ys. \<bar>y\<bar> \<le> 1 / 2 + u * (2 + 3 * (\<bar>Max (set xs) + Min (set xs)\<bar> / (2 * R)))"
    unfolding K_def M_def m_def .
  from centre show "\<bar>(Max (set ys) + Min (set ys)) / 2\<bar>
           \<le> u * (2 + 3 * (\<bar>Max (set xs) + Min (set xs)\<bar> / (2 * R)))"
    unfolding K_def M_def m_def .
qed

lemma rounded_nonneg:
  fixes fl :: "real \<Rightarrow> real"
  assumes "\<bar>fl t - t\<bar> \<le> u * \<bar>t\<bar>" "u \<le> 1" "0 \<le> t"
  shows "0 \<le> fl t"
proof -
  have "u * t \<le> 1 * t" using assms(2,3) by (rule mult_right_mono)
  moreover have "t - u * t \<le> fl t" using assms(1,3) by (simp add: abs_le_iff)
  ultimately show ?thesis using assms(3) by linarith
qed

lemma vert_range_bounds:
  shows "fl (Max (set (map vx vs)) - Min (set (map vx vs))) \<le> vert_range fl vs"
    and "fl (Max (set (map vy vs)) - Min (set (map vy vs))) \<le> vert_range fl vs"
    and "fl (Max (set (map vz vs)) - Min (set (map vz vs))) \<le> vert_range fl vs"
  by (simp_all add: vert_range_def Let_def v_round_def v_sub_def col_max_def col_min_def
      vx_def vy_def vz_def)

text \<open>
  C5 (as amended). For a mesh with at least one vertex and a nonzero computed extent, the
  normalizer returns, for every vertex \<open>v\<close>, the rounded \<open>(v - bbox_center) / max_extent\<close>,
  the centre being the rounded per-axis midpoint of the bounding box and the extent the
  largest rounded per-axis extent. If every operation has a relative rounding error of
  at most \<open>u \<le> 1/8\<close> (binary64: \<open>u = 2^-53\<close>), then on every axis \<open>(max + min) / 2\<close> of
  the result is within \<open>u * (2 + 3 * K)\<close> of 0 and every coordinate is within
  \<open>[-1/2 - u * (2 + 3 * K), 1/2 + u * (2 + 3 * K)]\<close>, where \<open>K\<close> is the distance of the
  bounding box's midpoint from the origin on that axis divided by the extent,
  \<open>\<bar>max + min\<bar> / (2 * max_extent)\<close>. In exact arithmetic (\<open>u = 0\<close>) the centre is 0 and
  the coordinates lie in \<open>[-1/2, 1/2]\<close>.
\<close>

theorem normalize_vertices_rounded:
  fixes fl :: "real \<Rightarrow> real"
  assumes "vs \<noteq> []" and "\<forall>x. \<bar>fl x - x\<bar> \<le> u * \<bar>x\<bar>" and "u \<le> 1 / 8"
    and "vert_range fl vs \<noteq> 0"
  shows "\<exists>ws. normalize_vertices fl vs = Inr ws \<and> length ws = length vs
      \<and> (\<forall>i<length vs. ws ! i
            = v_round fl (v_scale_div (v_round fl (v_sub (vs ! i) (bbox_center fl vs)))
                            (vert_range fl vs)))
      \<and> (\<forall>w \<in> set ws.
            \<bar>vx w\<bar> \<le> 1 / 2 + u * (2 + 3 * (\<bar>vx (v_add (col_max vs) (col_min vs))\<bar>
                                              / (2 * vert_range fl vs)))
          \<and> \<bar>vy w\<bar> \<le> 1 / 2 + u * (2 + 3 * (\<bar>vy (v_add (col_max vs) (col_min vs))\<bar>
                                              / (2 * vert_range fl vs)))
          \<and> \<bar>vz w\<bar> \<le> 1 / 2 + u * (2 + 3 * (\<bar>vz (v_add (col_max vs) (col_min vs))\<bar>
                                              / (2 * vert_range fl vs))))
      \<and> \<bar>vx (v_scale_div (v_add (col_max ws) (col_min ws)) 2)\<bar>
            \<le> u * (2 + 3 * (\<bar>vx (v_add (col_max vs) (col_min vs))\<bar> / (2 * vert_range fl vs)))
      \<and> \<bar>vy (v_scale_div (v_add (col_max ws) (col_min ws)) 2)\<bar>
            \<le> u * (2 + 3 * (\<bar>vy (v_add (col_max vs) (col_min vs))\<bar> / (2 * vert_range fl vs)))
      \<and> \<bar>vz (v_scale_div (v_add (col_max ws) (col_min ws)) 2)\<bar>
            \<le> u * (2 + 3 * (\<bar>vz (v_add (col_max vs) (col_min vs))\<bar> / (2 * vert_range fl vs)))"
proof -
  define R where "R = vert_range fl vs"
  define ws where "ws = map (\<lambda>v. v_round fl (v_scale_div (v_round fl (v_sub v (bbox_center fl vs))) R)) vs"
  have fl: "\<bar>fl x - x\<bar> \<le> u * \<bar>x\<bar>" for x using assms(2) by blast
  have u0: "0 \<le> u" using fl [of 1] by simp
  have u1: "u \<le> 1" using assms(3) by simp
  have nex: "map vx vs \<noteq> []" and ney: "map vy vs \<noteq> []" and nez: "map vz vs \<noteq> []"
    using assms(1) by simp_all
  have "0 \<le> fl (Max (set (map vx vs)) - Min (set (map vx vs)))"
    using Min_le_Max_list [OF nex] by (intro rounded_nonneg [OF fl u1]) simp
  also have "\<dots> \<le> R" unfolding R_def by (rule vert_range_bounds(1))
  finally have R: "0 < R" using assms(4) by (simp add: R_def)
  have res: "normalize_vertices fl vs = Inr ws"
    using assms(1,4) by (simp add: normalize_vertices_def ws_def R_def)
  have xs: "map vx ws = map (\<lambda>x. fl (fl (x - fl (fl (Max (set (map vx vs)) + Min (set (map vx vs))) / 2)) / R)) (map vx vs)"
    by (simp add: ws_def v_round_def v_scale_div_def v_sub_def v_add_def bbox_center_def
        col_max_def col_min_def vx_def vy_def vz_def)
  have ys: "map vy ws = map (\<lambda>x. fl (fl (x - fl (fl (Max (set (map vy vs)) + Min (set (map vy vs))) / 2)) / R)) (map vy vs)"
    by (simp add: ws_def v_round_def v_scale_div_def v_sub_def v_add_def bbox_center_def
        col_max_def col_min_def vx_def vy_def vz_def)
  have zs: "map vz ws = map (\<lambda>x. fl (fl (x - fl (fl (Max (set (map vz vs)) + Min (set (map vz vs))) / 2)) / R)) (map vz vs)"
    by (simp add: ws_def v_round_def v_scale_div_def v_sub_def v_add_def bbox_center_def
        col_max_def col_min_def vx_def vy_def vz_def)
  note bx = axis_rounded [OF fl u0 assms(3) nex R vert_range_bounds(1) [of fl vs, folded R_def],
      folded xs]
  note by' = axis_rounded [OF fl u0 assms(3) ney R vert_range_bounds(2) [of fl vs, folded R_def],
      folded ys]
  note bz = axis_rounded [OF fl u0 assms(3) nez R vert_range_bounds(3) [of fl vs, folded R_def],
      folded zs]
  have sx: "vx (v_add (col_max vs) (col_min vs)) = Max (set (map vx vs)) + Min (set (map vx vs))"
    and sy: "vy (v_add (col_max vs) (col_min vs)) = Max (set (map vy vs)) + Min (set (map vy vs))"
    and sz: "vz (v_add (col_max vs) (col_min vs)) = Max (set (map vz vs)) + Min (set (map vz vs))"
    by (simp_all add: v_add_def col_max_def col_min_def vx_def vy_def vz_def)
  have cx: "vx (v_scale_div (v_add (col_max ws) (col_min ws)) 2)
          = (Max (set (map vx ws)) + Min (set (map vx ws))) / 2"
    and cy: "vy (v_scale_div (v_add (col_max ws) (col_min ws)) 2)
          = (Max (set (map vy ws)) + Min (set (map vy ws))) / 2"
    and cz: "vz (v_scale_div (v_add (col_max ws) (col_min ws)) 2)
          = (Max (set (map vz ws)) + Min (set (map vz ws))) / 2"
    by (simp_all add: v_scale_div_def v_add_def col_max_def col_min_def vx_def vy_def vz_def)
  have bounds: "\<forall>w \<in> set ws.
            \<bar>vx w\<bar> \<le> 1 / 2 + u * (2 + 3 * (\<bar>vx (v_add (col_max vs) (col_min vs))\<bar> / (2 * R)))
          \<and> \<bar>vy w\<bar> \<le> 1 / 2 + u * (2 + 3 * (\<bar>vy (v_add (col_max vs) (col_min vs))\<bar> / (2 * R)))
          \<and> \<bar>vz w\<bar> \<le> 1 / 2 + u * (2 + 3 * (\<bar>vz (v_add (col_max vs) (col_min vs))\<bar> / (2 * R)))"
  proof
    fix w assume w: "w \<in> set ws"
    then have "vx w \<in> set (map vx ws)" "vy w \<in> set (map vy ws)" "vz w \<in> set (map vz ws)"
      by simp_all
    with bx(1) by'(1) bz(1)
    show "\<bar>vx w\<bar> \<le> 1 / 2 + u * (2 + 3 * (\<bar>vx (v_add (col_max vs) (col_min vs))\<bar> / (2 * R)))
          \<and> \<bar>vy w\<bar> \<le> 1 / 2 + u * (2 + 3 * (\<bar>vy (v_add (col_max vs) (col_min vs))\<bar> / (2 * R)))
          \<and> \<bar>vz w\<bar> \<le> 1 / 2 + u * (2 + 3 * (\<bar>vz (v_add (col_max vs) (col_min vs))\<bar> / (2 * R)))"
      unfolding sx sy sz by blast
  qed
  have len: "length ws = length vs" by (simp add: ws_def)
  have nth: "\<forall>i<length vs. ws ! i
            = v_round fl (v_scale_div (v_round fl (v_sub (vs ! i) (bbox_center fl vs))) R)"
    by (simp add: ws_def)
  from res len nth bounds bx(2) [folded sx cx] by'(2) [folded sy cy] bz(2) [folded sz cz]
  have "normalize_vertices fl vs = Inr ws \<and> length ws = length vs
      \<and> (\<forall>i<length vs. ws ! i
            = v_round fl (v_scale_div (v_round fl (v_sub (vs ! i) (bbox_center fl vs))) R))
      \<and> (\<forall>w \<in> set ws.
            \<bar>vx w\<bar> \<le> 1 / 2 + u * (2 + 3 * (\<bar>vx (v_add (col_max vs) (col_min vs))\<bar> / (2 * R)))
          \<and> \<bar>vy w\<bar> \<le> 1 / 2 + u * (2 + 3 * (\<bar>vy (v_add (col_max vs) (col_min vs))\<bar> / (2 * R)))
          \<and> \<bar>vz w\<bar> \<le> 1 / 2 + u * (2 + 3 * (\<bar>vz (v_add (col_max vs) (col_min vs))\<bar> / (2 * R))))
      \<and> \<bar>vx (v_scale_div (v_add (col_max ws) (col_min ws)) 2)\<bar>
            \<le> u * (2 + 3 * (\<bar>vx (v_add (col_max vs) (col_min vs))\<bar> / (2 * R)))
      \<and> \<bar>vy (v_scale_div (v_add (col_max ws) (col_min ws)) 2)\<bar>
            \<le> u * (2 + 3 * (\<bar>vy (v_add (col_max vs) (col_min vs))\<bar> / (2 * R)))
      \<and> \<bar>vz (v_scale_div (v_add (col_max ws) (col_min ws)) 2)\<bar>
            \<le> u * (2 + 3 * (\<bar>vz (v_add (col_max vs) (col_min vs))\<bar> / (2 * R)))"
    by (intro conjI)
  then show ?thesis unfolding R_def by (rule exI [where x = ws])
qed


theorem normalize_vertices_rounded_witness:
  "tenth_mesh \<noteq> []
   \<and> (\<forall>x. \<bar>fl64 x - x\<bar> \<le> 1 / 2 ^ 53 * \<bar>x\<bar>)
   \<and> (1 / 2 ^ 53 :: real) \<le> 1 / 8
   \<and> vert_range fl64 tenth_mesh = 8106479329266893 / 9007199254740992
   \<and> vx (v_add (col_max tenth_mesh) (col_min tenth_mesh)) = - 39631676720860365 / 36028797018963968
   \<and> (\<exists>ws. normalize_vertices fl64 tenth_mesh = Inr ws
          \<and> (\<forall>w \<in> set ws. \<bar>vx w\<bar> \<le> 1 / 2 + 1 / 2 ^ 53 * 4)
          \<and> \<bar>vx (v_scale_div (v_add (col_max ws) (col_min ws)) 2)\<bar> \<le> 1 / 2 ^ 53 * 4)
   \<and> normalize_vertices (\<lambda>x. x) [(0, 0, 0), (4, 2, 1)]
       = Inr [(- 1 / 2, - 1 / 4, - 1 / 8), (1 / 2, 1 / 4, 1 / 8)]"
proof -
  have ne: "tenth_mesh \<noteq> []" by (simp add: tenth_mesh_def)
  have fl: "\<forall>x. \<bar>fl64 x - x\<bar> \<le> 1 / 2 ^ 53 * \<bar>x\<bar>"
    using fl64_error by simp
  have u: "(1 / 2 ^ 53 :: real) \<le> 1 / 8" by simp
  have r: "vert_range fl64 tenth_mesh = 8106479329266893 / 9007199254740992" by code_simp
  have r0: "vert_range fl64 tenth_mesh \<noteq> 0" unfolding r by simp
  have s: "vx (v_add (col_max tenth_mesh) (col_min tenth_mesh))
         = - 39631676720860365 / 36028797018963968" by code_simp
  have k: "(2 + 3 * (\<bar>- 39631676720860365 / 36028797018963968\<bar>
                      / (2 * (8106479329266893 / 9007199254740992))) :: real) \<le> 4"
    by simp
  from normalize_vertices_rounded [OF ne fl u r0]
  obtain ws where res: "normalize_vertices fl64 tenth_mesh = Inr ws"
    and b: "\<forall>w \<in> set ws.
            \<bar>vx w\<bar> \<le> 1 / 2 + 1 / 2 ^ 53 * (2 + 3 * (\<bar>vx (v_add (col_max tenth_mesh) (col_min tenth_mesh))\<bar>
                                              / (2 * vert_range fl64 tenth_mesh)))
          \<and> \<bar>vy w\<bar> \<le> 1 / 2 + 1 / 2 ^ 53 * (2 + 3 * (\<bar>vy (v_add (col_max tenth_mesh) (col_min tenth_mesh))\<bar>
                                              / (2 * vert_range fl64 tenth_mesh)))
          \<and> \<bar>vz w\<bar> \<le> 1 / 2 + 1 / 2 ^ 53 * (2 + 3 * (\<bar>vz (v_add (col_max tenth_mesh) (col_min tenth_mesh))\<bar>
                                              / (2 * vert_range fl64 tenth_mesh)))"
    and c: "\<bar>vx (v_scale_div (v_add (col_max ws) (col_min ws)) 2)\<bar>
            \<le> 1 / 2 ^ 53 * (2 + 3 * (\<bar>vx (v_add (col_max tenth_mesh) (col_min tenth_mesh))\<bar>
                                    / (2 * vert_range fl64 tenth_mesh)))"
    by (elim exE conjE) (rule that; assumption)
  have m: "1 / 2 ^ 53 * (2 + 3 * (\<bar>vx (v_add (col_max tenth_mesh) (col_min tenth_mesh))\<bar>
                                    / (2 * vert_range fl64 tenth_mesh)))
         \<le> (1 / 2 ^ 53 * 4 :: real)"
    unfolding s r using k by (intro mult_left_mono) simp_all
  have b': "\<forall>w \<in> set ws. \<bar>vx w\<bar> \<le> 1 / 2 + 1 / 2 ^ 53 * 4"
  proof
    fix w assume "w \<in> set ws"
    with b have "\<bar>vx w\<bar> \<le> 1 / 2 + 1 / 2 ^ 53 * (2 + 3 * (\<bar>vx (v_add (col_max tenth_mesh) (col_min tenth_mesh))\<bar>
                                              / (2 * vert_range fl64 tenth_mesh)))"
      by blast
    with m show "\<bar>vx w\<bar> \<le> 1 / 2 + 1 / 2 ^ 53 * 4" by linarith
  qed
  have c': "\<bar>vx (v_scale_div (v_add (col_max ws) (col_min ws)) 2)\<bar> \<le> 1 / 2 ^ 53 * 4"
    using c m by linarith
  from res b' c'
  have "normalize_vertices fl64 tenth_mesh = Inr ws
          \<and> (\<forall>w \<in> set ws. \<bar>vx w\<bar> \<le> 1 / 2 + 1 / 2 ^ 53 * 4)
          \<and> \<bar>vx (v_scale_div (v_add (col_max ws) (col_min ws)) 2)\<bar> \<le> 1 / 2 ^ 53 * 4"
    by (intro conjI)
  note all = this
  have ex: "\<exists>ws. normalize_vertices fl64 tenth_mesh = Inr ws
          \<and> (\<forall>w \<in> set ws. \<bar>vx w\<bar> \<le> 1 / 2 + 1 / 2 ^ 53 * 4)
          \<and> \<bar>vx (v_scale_div (v_add (col_max ws) (col_min ws)) 2)\<bar> \<le> 1 / 2 ^ 53 * 4"
    by (rule exI [where x = ws]) (rule all)
  have exact: "normalize_vertices (\<lambda>x. x) [(0, 0, 0), (4, 2, 1)]
       = Inr [(- 1 / 2, - 1 / 4, - 1 / 8), (1 / 2, 1 / 4, 1 / 8)]"
    by code_simp
  from ne fl u r s ex exact show ?thesis by (intro conjI)
qed

text \<open>
  C5 as stated fails in binary64: for the two vertices \<open>(-0.1, 0, 0)\<close> and \<open>(-1, 0, 0)\<close>
  the normalizer returns the x coordinates \<open>1/2 + 2^-53\<close> (0.5000000000000001, outside
  \<open>[-1/2, 1/2]\<close>) and \<open>-1/2 + 2^-54\<close>, whose \<open>(max + min) / 2\<close> is \<open>3 * 2^-55\<close>, not 0.
\<close>

theorem normalize_vertices_float64_counterexample:
  "fl64 (- 1 / 10) = - 3602879701896397 / 36028797018963968
   \<and> tenth_mesh = [(- 3602879701896397 / 36028797018963968, 0, 0), (- 1, 0, 0)]
   \<and> vert_range fl64 tenth_mesh = 8106479329266893 / 9007199254740992
   \<and> bbox_center fl64 tenth_mesh = (- 2476979795053773 / 4503599627370496, 0, 0)
   \<and> normalize_vertices fl64 tenth_mesh
       = Inr [(4503599627370497 / 9007199254740992, 0, 0),
              (- 9007199254740991 / 18014398509481984, 0, 0)]
   \<and> (1 / 2 :: real) < 4503599627370497 / 9007199254740992
   \<and> v_scale_div (v_add (col_max [(4503599627370497 / 9007199254740992, 0, 0),
                                  (- 9007199254740991 / 18014398509481984, 0, 0)])
                         (col_min [(4503599627370497 / 9007199254740992, 0, 0),
                                  (- 9007199254740991 / 18014398509481984, 0, 0)])) 2
       = (3 / 36028797018963968, 0, 0)"
proof -
  have a: "fl64 (- 1 / 10) = - 3602879701896397 / 36028797018963968" by code_simp
  have b: "tenth_mesh = [(- 3602879701896397 / 36028797018963968, 0, 0), (- 1, 0, 0)]"
    by (simp add: tenth_mesh_def)
  have c: "vert_range fl64 tenth_mesh = 8106479329266893 / 9007199254740992" by code_simp
  have d: "bbox_center fl64 tenth_mesh = (- 2476979795053773 / 4503599627370496, 0, 0)"
    by code_simp
  have e: "normalize_vertices fl64 tenth_mesh
       = Inr [(4503599627370497 / 9007199254740992, 0, 0),
              (- 9007199254740991 / 18014398509481984, 0, 0)]" by code_simp
  have f: "(1 / 2 :: real) < 4503599627370497 / 9007199254740992" by simp
  have g: "v_scale_div (v_add (col_max [(4503599627370497 / 9007199254740992, 0, 0),
                                  (- 9007199254740991 / 18014398509481984, 0, 0)])
                         (col_min [(4503599627370497 / 9007199254740992, 0, 0),
                                  (- 9007199254740991 / 18014398509481984, 0, 0)])) 2
       = (3 / 36028797018963968, 0, 0)" by code_simp
  from a b c d e f g show ?thesis by (intro conjI)
qed

subsection \<open>Face normals are scaled by length plus epsilon\<close>

lemma EPSILON_pos: "0 < EPSILON"
  by (simp add: EPSILON_def)

lemma v_len_nonneg: "0 \<le> v_len v"
  by (simp add: v_len_def)

lemma v_len_sq: "(v_len v)\<^sup>2 = row_sq_sum v"
  by (simp add: v_len_def row_sq_sum_def)

lemma v_len_zero_iff: "v_len v = 0 \<longleftrightarrow> v = (0, 0, 0)"
proof -
  have "v_len v = 0 \<longleftrightarrow> (vx v)\<^sup>2 + (vy v)\<^sup>2 + (vz v)\<^sup>2 = 0"
    by (simp add: v_len_def)
  also have "\<dots> \<longleftrightarrow> vx v = 0 \<and> vy v = 0 \<and> vz v = 0"
    by (simp add: sum_power2_eq_zero_iff add_nonneg_eq_0_iff)
  also have "\<dots> \<longleftrightarrow> v = (0, 0, 0)"
    by (cases v) (simp add: vx_def vy_def vz_def)
  finally show ?thesis .
qed

lemma normalize_v3_row_eq:
  "normalize_v3_row v = Inr (v_scale_div v (v_len v + EPSILON))"
proof -
  have "v_len v + EPSILON \<noteq> 0"
    using v_len_nonneg [of v] EPSILON_pos by linarith
  then show ?thesis
    by (simp add: normalize_v3_row_def np_divide_def v_scale_div_def Let_def)
qed

lemma collect_all_Inr: "collect (map (\<lambda>x. Inr (f x)) xs) = Inr (map f xs)"
  by (induction xs) simp_all

lemma normalize_v3_eq:
  "normalize_v3 arr = Inr (map (\<lambda>v. v_scale_div v (v_len v + EPSILON)) arr)"
  unfolding normalize_v3_def
  using collect_all_Inr [of "\<lambda>v. v_scale_div v (v_len v + EPSILON)" arr]
  by (simp add: normalize_v3_row_eq [abs_def])

lemma row_sq_sum_scaled:
  "row_sq_sum (v_scale_div v (v_len v + EPSILON)) = (v_len v / (v_len v + EPSILON))\<^sup>2"
proof -
  have "row_sq_sum (v_scale_div v (v_len v + EPSILON))
      = row_sq_sum v / (v_len v + EPSILON)\<^sup>2"
    by (simp add: row_sq_sum_def v_scale_div_def vx_def vy_def vz_def power_divide add_divide_distrib)
  also have "\<dots> = (v_len v)\<^sup>2 / (v_len v + EPSILON)\<^sup>2"
    by (simp add: v_len_sq)
  finally show ?thesis by (simp add: power_divide)
qed

lemma ratio_bounds:
  fixes l e :: real
  assumes "0 < l" "0 < e"
  shows "1 - 2 * e / l < (l / (l + e))\<^sup>2" and "(l / (l + e))\<^sup>2 < 1"
proof -
  define t where "t = e / (l + e)"
  have t: "0 < t" "t < e / l" using assms by (simp_all add: t_def field_simps)
  have eq: "l / (l + e) = 1 - t" using assms by (simp add: t_def field_simps)
  have "1 - 2 * e / l < 1 - 2 * t" using t by simp
  also have "\<dots> \<le> (1 - t)\<^sup>2" by (simp add: power2_eq_square algebra_simps)
  finally show "1 - 2 * e / l < (l / (l + e))\<^sup>2" by (simp add: eq)
  have "0 < l / (l + e)" "l / (l + e) < 1" using assms by simp_all
  then show "(l / (l + e))\<^sup>2 < 1"
    using power_strict_mono [of "l / (l + e)" 1 2] by simp
qed

text \<open>
  C6 (amended). For every mesh with face indices in range, each face normal is the cross
  product \<open>c\<close> of the two edge vectors divided by \<open>L + EPSILON\<close>, where \<open>L\<close> is the
  length of \<open>c\<close>. The divisor is never zero, so nothing is non-finite: a degenerate
  face gets the normal \<open>(0, 0, 0)\<close>. The squared row sum is \<open>(L / (L + EPSILON))\<^sup>2\<close>; for
  a non-degenerate face it lies strictly between \<open>1 - 2 * EPSILON / L\<close> and 1, so it
  is close to 1 when \<open>L\<close> is large against \<open>EPSILON\<close>.
\<close>

theorem normal_vectors_length:
  assumes "list_all (face_in_range (length vs)) fs"
  shows "\<exists>ns. normal_vectors vs fs = Inr ns \<and> length ns = length fs
     \<and> (\<forall>i<length fs.
          ns ! i = v_scale_div (face_cross (take3 vs (fs ! i)))
                     (v_len (face_cross (take3 vs (fs ! i))) + EPSILON)
        \<and> v_len (face_cross (take3 vs (fs ! i))) + EPSILON \<noteq> 0
        \<and> row_sq_sum (ns ! i)
            = (v_len (face_cross (take3 vs (fs ! i)))
                / (v_len (face_cross (take3 vs (fs ! i))) + EPSILON))\<^sup>2
        \<and> (face_cross (take3 vs (fs ! i)) \<noteq> (0, 0, 0) \<longrightarrow>
              1 - 2 * EPSILON / v_len (face_cross (take3 vs (fs ! i))) < row_sq_sum (ns ! i)
            \<and> row_sq_sum (ns ! i) < 1)
        \<and> (face_cross (take3 vs (fs ! i)) = (0, 0, 0) \<longrightarrow> ns ! i = (0, 0, 0)))"
proof -
  define ns where "ns = map (\<lambda>v. v_scale_div v (v_len v + EPSILON)) (map face_cross (map (take3 vs) fs))"
  have res: "normal_vectors vs fs = Inr ns"
    using assms by (simp add: normal_vectors_def gather_def normalize_v3_eq ns_def)
  have len: "length ns = length fs" by (simp add: ns_def)
  have rows: "\<forall>i<length fs.
          ns ! i = v_scale_div (face_cross (take3 vs (fs ! i)))
                     (v_len (face_cross (take3 vs (fs ! i))) + EPSILON)
        \<and> v_len (face_cross (take3 vs (fs ! i))) + EPSILON \<noteq> 0
        \<and> row_sq_sum (ns ! i)
            = (v_len (face_cross (take3 vs (fs ! i)))
                / (v_len (face_cross (take3 vs (fs ! i))) + EPSILON))\<^sup>2
        \<and> (face_cross (take3 vs (fs ! i)) \<noteq> (0, 0, 0) \<longrightarrow>
              1 - 2 * EPSILON / v_len (face_cross (take3 vs (fs ! i))) < row_sq_sum (ns ! i)
            \<and> row_sq_sum (ns ! i) < 1)
        \<and> (face_cross (take3 vs (fs ! i)) = (0, 0, 0) \<longrightarrow> ns ! i = (0, 0, 0))"
  proof (intro allI impI)
    fix i assume i: "i < length fs"
    define c where "c = face_cross (take3 vs (fs ! i))"
    have n: "ns ! i = v_scale_div c (v_len c + EPSILON)"
      using i by (simp add: ns_def c_def)
    have d: "v_len c + EPSILON \<noteq> 0"
      using v_len_nonneg [of c] EPSILON_pos by linarith
    have s: "row_sq_sum (ns ! i) = (v_len c / (v_len c + EPSILON))\<^sup>2"
      by (simp add: n row_sq_sum_scaled)
    have nd: "c \<noteq> (0, 0, 0) \<longrightarrow>
        1 - 2 * EPSILON / v_len c < row_sq_sum (ns ! i) \<and> row_sq_sum (ns ! i) < 1"
    proof
      assume "c \<noteq> (0, 0, 0)"
      then have "0 < v_len c"
        using v_len_nonneg [of c] v_len_zero_iff [of c] by linarith
      from ratio_bounds [OF this EPSILON_pos] show
        "1 - 2 * EPSILON / v_len c < row_sq_sum (ns ! i) \<and> row_sq_sum (ns ! i) < 1"
        by (simp add: s)
    qed
    have dg: "c = (0, 0, 0) \<longrightarrow> ns ! i = (0, 0, 0)"
      by (simp add: n v_scale_div_def vx_def vy_def vz_def)
    from n d s nd dg
    show "ns ! i = v_scale_div (face_cross (take3 vs (fs ! i)))
                     (v_len (face_cross (take3 vs (fs ! i))) + EPSILON)
        \<and> v_len (face_cross (take3 vs (fs ! i))) + EPSILON \<noteq> 0
        \<and> row_sq_sum (ns ! i)
            = (v_len (face_cross (take3 vs (fs ! i)))
                / (v_len (face_cross (take3 vs (fs ! i))) + EPSILON))\<^sup>2
        \<and> (face_cross (take3 vs (fs ! i)) \<noteq> (0, 0, 0) \<longrightarrow>
              1 - 2 * EPSILON / v_len (face_cross (take3 vs (fs ! i))) < row_sq_sum (ns ! i)
            \<and> row_sq_sum (ns ! i) < 1)
        \<and> (face_cross (take3 vs (fs ! i)) = (0, 0, 0) \<longrightarrow> ns ! i = (0, 0, 0))"
      unfolding c_def by blast
  qed
  from res len rows show ?thesis by blast
qed

lemma tiny_cross: "face_cross (take3 tiny_mesh tiny_face) = (0, 0, 1 / 10 ^ 12)"
  by (simp add: tiny_mesh_def tiny_face_def take3_def face_cross_def cross_def v_sub_def
      vx_def vy_def vz_def)

lemma flat_cross: "face_cross (take3 tiny_mesh flat_face) = (0, 0, 0)"
  by (simp add: tiny_mesh_def flat_face_def take3_def face_cross_def cross_def v_sub_def
      vx_def vy_def vz_def)

lemma v_len_z: "0 \<le> c \<Longrightarrow> v_len (0, 0, c) = c"
  by (simp add: v_len_def vx_def vy_def vz_def)

lemma tiny_in_range: "list_all (face_in_range (length tiny_mesh)) [tiny_face, flat_face]"
  by (simp add: face_in_range_def tiny_mesh_def tiny_face_def flat_face_def)

lemma scale_z:
  "0 \<le> c \<Longrightarrow> v_scale_div (0, 0, c) (v_len (0, 0, c) + e) = (0, 0, c / (c + e))"
  by (simp add: v_len_z) (simp add: v_scale_div_def vx_def vy_def vz_def)

lemma tiny_normal: "normal_vectors tiny_mesh [tiny_face] = Inr [(0, 0, 1 / 2)]"
proof -
  have g: "gather tiny_mesh [tiny_face] = Inr [take3 tiny_mesh tiny_face]"
    using tiny_in_range by (simp add: gather_def)
  have "v_scale_div (0, 0, 1 / 10 ^ 12) (v_len (0, 0, 1 / 10 ^ 12) + EPSILON)
      = (0, 0, (1 / 10 ^ 12) / (1 / 10 ^ 12 + EPSILON))"
    by (rule scale_z) simp
  also have "\<dots> = (0, 0, 1 / 2)"
    by (simp add: EPSILON_def)
  finally have s: "v_scale_div (0, 0, 1 / 10 ^ 12) (v_len (0, 0, 1 / 10 ^ 12) + EPSILON)
      = (0, 0, 1 / 2)" .
  show ?thesis
    unfolding normal_vectors_def g normalize_v3_eq
    by (simp only: sum.case list.map tiny_cross s)
qed

text \<open>
  C6 as stated fails for small faces: the triangle with legs of length 1e-6 has
  nonzero area, its cross product has length 1e-12, which is \<open>EPSILON\<close>, and its normal
  has squared row sum 1/4, not 1.
\<close>

theorem normal_not_unit_counterexample:
  "normal_vectors tiny_mesh [tiny_face] = Inr [(0, 0, 1 / 2)]
   \<and> face_cross (take3 tiny_mesh tiny_face) \<noteq> (0, 0, 0)
   \<and> row_sq_sum (0, 0, 1 / 2) = 1 / 4"
  by (simp add: tiny_normal tiny_cross row_sq_sum_def vx_def vy_def vz_def power2_eq_square)

theorem normal_vectors_length_witness:
  "list_all (face_in_range (length tiny_mesh)) [tiny_face, flat_face]
   \<and> (\<exists>ns. normal_vectors tiny_mesh [tiny_face, flat_face] = Inr ns
        \<and> face_cross (take3 tiny_mesh tiny_face) \<noteq> (0, 0, 0)
        \<and> row_sq_sum (ns ! 0) < 1
        \<and> face_cross (take3 tiny_mesh flat_face) = (0, 0, 0)
        \<and> ns ! 1 = (0, 0, 0))"
proof -
  have c0: "face_cross (take3 tiny_mesh tiny_face) \<noteq> (0, 0, 0)"
    by (simp add: tiny_cross)
  from normal_vectors_length [OF tiny_in_range] obtain ns where
    ns: "normal_vectors tiny_mesh [tiny_face, flat_face] = Inr ns"
    and rows: "\<forall>i<length [tiny_face, flat_face].
       (face_cross (take3 tiny_mesh ([tiny_face, flat_face] ! i)) \<noteq> (0, 0, 0) \<longrightarrow>
              1 - 2 * EPSILON / v_len (face_cross (take3 tiny_mesh ([tiny_face, flat_face] ! i))) < row_sq_sum (ns ! i)
            \<and> row_sq_sum (ns ! i) < 1)
        \<and> (face_cross (take3 tiny_mesh ([tiny_face, flat_face] ! i)) = (0, 0, 0) \<longrightarrow> ns ! i = (0, 0, 0))"
    by blast
  from rows [rule_format, of 0] c0 have a: "row_sq_sum (ns ! 0) < 1" by simp
  from rows [rule_format, of 1] flat_cross have b: "ns ! 1 = (0, 0, 0)" by simp
  from tiny_in_range ns a b c0 flat_cross show ?thesis by blast
qed

subsection \<open>Facts about the compositing stages\<close>

lemma collect_length: "collect rs = Inr xs \<Longrightarrow> length xs = length rs"
proof (induction rs arbitrary: xs)
  case Nil
  then show ?case by simp
next
  case (Cons r rs)
  then show ?case
    by (cases r) (auto split: sum.splits)
qed

lemma length_assign_at: "length (assign_at xs idx f) = length xs"
  unfolding assign_at_def by (induction idx arbitrary: xs) simp_all

lemma nth_assign_at:
  "j < length xs \<Longrightarrow> assign_at xs idx f ! j = (if j \<in> set idx then f j else xs ! j)"
  unfolding assign_at_def
proof (induction idx arbitrary: xs)
  case Nil
  then show ?case by simp
next
  case (Cons i idx)
  have len: "j < length (xs[i := f i])" using Cons.prems by simp
  show ?case
    using Cons.IH [OF len] Cons.prems
    by (cases "i = j") (simp_all add: nth_list_update)
qed

lemma length_binarize: "length (binarize sf) = length sf"
  by (simp add: binarize_def)

lemma length_raw_sulc_faces: "length (raw_sulc_faces h) = length (l_faces h)"
  by (simp add: raw_sulc_faces_def)

lemma length_sulc_faces: "length (sulc_faces h) = length (l_faces h)"
  by (simp add: sulc_faces_def length_binarize length_raw_sulc_faces)

lemma length_mask_faces: "length (mask_faces msk fs) = length fs"
  by (simp add: mask_faces_def)

lemma length_apply_label: "length (apply_label lc fc) = length fc"
  by (cases lc) (simp add: apply_label_def length_assign_at)

lemma nth_apply_label:
  assumes "j < length fc" "length L = length fc"
  shows "apply_label (L, c) fc ! j = (if 1 / 2 \<le> L ! j then rgba_mul (fc ! j) c else fc ! j)"
  using assms by (simp add: apply_label_def nth_assign_at)

lemma nth_fold_apply_label:
  assumes "j < length fc" "\<forall>lc \<in> set lcs. length (fst lc) = length fc"
  shows "fold apply_label lcs fc ! j
       = foldl rgba_mul (fc ! j) (map snd (filter (\<lambda>lc. 1 / 2 \<le> fst lc ! j) lcs))"
  using assms
proof (induction lcs arbitrary: fc)
  case Nil
  then show ?case by simp
next
  case (Cons lc lcs)
  obtain L c where lc: "lc = (L, c)" by (cases lc)
  have lenL: "length L = length fc" using Cons.prems(2) lc by simp
  have len': "j < length (apply_label lc fc)" using Cons.prems(1) by (simp add: length_apply_label)
  have all': "\<forall>x \<in> set lcs. length (fst x) = length (apply_label lc fc)"
    using Cons.prems(2) by (simp add: length_apply_label)
  have step: "apply_label lc fc ! j = (if 1 / 2 \<le> L ! j then rgba_mul (fc ! j) c else fc ! j)"
    unfolding lc by (rule nth_apply_label [OF Cons.prems(1) lenL])
  show ?case
    using Cons.IH [OF len' all'] step by (simp add: lc)
qed

lemma set_threshold_kept_subset: "set (threshold_kept kept ovf thr) \<subseteq> set kept"
  by (cases thr) (auto simp: threshold_kept_def)

lemma overlay_kept_subset: "set (overlay_kept a h ov) \<subseteq> set (kept_indices a h)"
  by (simp add: overlay_kept_def set_threshold_kept_subset)

lemma kept_indices_range: "i \<in> set (kept_indices a h) \<Longrightarrow> i < length (l_faces h)"
  by (cases "ctx_masks a") (auto simp: kept_indices_def length_sulc_faces)

lemma kept_not_masked:
  assumes "ctx_masks a = Some c" "i \<in> set (kept_indices a h)"
  shows "i \<notin> set (masked_indices h)"
  using assms by (auto simp: kept_indices_def masked_indices_def)

lemma length_label_stage: "length (label_stage h fc) = length fc"
proof -
  have "length (fold apply_label lcs fc) = length fc" for lcs
    by (induction lcs arbitrary: fc) (simp_all add: length_apply_label)
  then show ?thesis by (simp add: label_stage_def)
qed

lemma nth_label_stage:
  assumes "j < length fc" "length fc = length (l_faces h)"
  shows "label_stage h fc ! j
       = foldl rgba_mul (fc ! j)
           (map snd (filter (\<lambda>lc. 1 / 2 \<le> fst lc ! j) (zip (label_mask_faces h) (l_label_colors h))))"
  unfolding label_stage_def
proof (rule nth_fold_apply_label [OF assms(1)])
  show "\<forall>lc \<in> set (zip (label_mask_faces h) (l_label_colors h)). length (fst lc) = length fc"
  proof
    fix lc assume "lc \<in> set (zip (label_mask_faces h) (l_label_colors h))"
    then have "fst lc \<in> set (label_mask_faces h)"
      using set_zip_leftD [of "fst lc" "snd lc"] by simp
    then show "length (fst lc) = length fc"
      by (auto simp: label_mask_faces_def length_mask_faces assms(2))
  qed
qed

lemma length_mask_stage: "length (mask_stage a h fc) = length fc"
  by (cases "ctx_masks a") (simp_all add: mask_stage_def length_assign_at)

lemma nth_mask_stage_kept:
  assumes "i \<in> set (kept_indices a h)" "length fc = length (l_faces h)"
  shows "mask_stage a h fc ! i = fc ! i"
proof (cases "ctx_masks a")
  case None
  then show ?thesis by (simp add: mask_stage_def)
next
  case (Some c)
  have "i < length fc" using kept_indices_range [OF assms(1)] assms(2) by simp
  then show ?thesis
    using kept_not_masked [OF Some assms(1)] by (simp add: mask_stage_def Some nth_assign_at)
qed

lemma length_base_colors: "length (base_colors g h) = length (l_faces h)"
  by (simp add: base_colors_def length_sulc_faces)

lemma length_overlay_stage: "length (fst (overlay_stage a h st fc)) = length fc"
  by (cases "l_overlay h") (simp_all add: overlay_stage_def Let_def length_assign_at)

lemma nth_overlay_stage_kept:
  assumes "l_overlay h = Some ov" "i \<in> set (overlay_kept a h ov)" "length fc = length (l_faces h)"
  shows "fst (overlay_stage a h st fc) ! i = overlay_colors a h st ov ! i"
proof -
  have "i \<in> set (kept_indices a h)" using assms(2) overlay_kept_subset by blast
  then have "i < length fc" using kept_indices_range assms(3) by simp
  then show ?thesis
    using assms(1,2) by (simp add: overlay_stage_def Let_def nth_assign_at)
qed

lemma length_overlay_faces: "length (overlay_faces a h ov) = length (l_faces h)"
  by (cases "avg_method a") (simp_all add: overlay_faces_def)

lemma nth_overlay_colors:
  assumes "i < length (l_faces h)"
  shows "overlay_colors a h st ov ! i
       = cmap a (np_div (np_sub (overlay_faces a h ov ! i) (new_vmin st (overlay_faces a h ov)))
                  (np_sub (new_vmax st (overlay_faces a h ov)) (new_vmin st (overlay_faces a h ov))))"
  using assms by (simp add: overlay_colors_def Let_def normalized_def length_overlay_faces)

lemma load_hemi_label_colors:
  assumes "load_hemi a m = Inr h" "labels a = Some ls"
  shows "\<exists>cs. label_colors a = Some cs \<and> length cs = length ls
            \<and> l_label_colors h = map (set_alpha (label_alpha a)) cs
            \<and> length (l_label_masks h) = length ls"
proof -
  from assms(1) obtain colors masks where
    rl: "read_labels a m (length (fst (pick m (meshes a)))) = Inr (colors, masks)"
    and h: "l_label_colors h = colors" "l_label_masks h = masks"
    by (auto simp: load_hemi_def Let_def split: option.splits sum.splits)
  from rl assms(2) obtain cs where cs: "label_colors a = Some cs" "length cs = length ls"
    and col: "colors = map (set_alpha (label_alpha a)) cs"
    and ms: "collect (map (\<lambda>label. index_mask (length (fst (pick m (meshes a)))) (pick m label)) ls) = Inr masks"
    by (auto simp: read_labels_def split: option.splits if_splits sum.splits)
  have "length masks = length ls"
    using ms collect_length by fastforce
  with cs col h show ?thesis by simp
qed

subsection \<open>The witness inputs load\<close>



subsection \<open>Label tints multiply the overlay colour\<close>

lemma rgba_mul_explicit:
  "rgba_mul = (\<lambda>(r, gr, b, al) (r', gr', b', al'). (r * r', gr * gr', b * b', al * al'))"
  by (auto simp: rgba_mul_def fun_eq_iff)

lemma set_alpha_explicit:
  "set_alpha alpha = (\<lambda>(r, gr, b, al). (r, gr, b, alpha))"
  by (auto simp: set_alpha_def fun_eq_iff)

lemma w_load2_LH: "load_hemi w_args2 LH = Inr w_lh2"
  by code_simp

text \<open>
  C1. For a face in the overlay's kept set, the colour after the label stage (before
  lighting) is the overlay colormap colour of that face multiplied elementwise, channel
  by channel, by the colour of every label whose reduced mask there is at least 0.5, in
  label input order; each label colour has its alpha replaced by \<open>label_alpha\<close>. With
  one covering label \<open>(r', g', b', al')\<close> over the overlay colour \<open>(r, g, b, al)\<close> the
  colour is \<open>(r * r', g * g', b * b', al * al')\<close>.
\<close>

theorem label_tint_multiplies_overlay:
  assumes "load_hemi a m = Inr h" and "l_overlay h = Some ov"
    and "f \<in> set (overlay_kept a h ov)"
  shows "fst (composite g a h st) ! f
           = foldl (\<lambda>(r, gr, b, al) (r', gr', b', al'). (r * r', gr * gr', b * b', al * al'))
               (overlay_colors a h st ov ! f) (covering_colors h f)
       \<and> overlay_colors a h st ov ! f
           = cmap a (np_div (np_sub (overlay_faces a h ov ! f) (new_vmin st (overlay_faces a h ov)))
                       (np_sub (new_vmax st (overlay_faces a h ov)) (new_vmin st (overlay_faces a h ov))))
       \<and> (\<forall>r gr b al r' gr' b' al'.
              overlay_colors a h st ov ! f = (r, gr, b, al)
              \<and> covering_colors h f = [(r', gr', b', al')]
            \<longrightarrow> fst (composite g a h st) ! f = (r * r', gr * gr', b * b', al * al'))
       \<and> (\<forall>ls. labels a = Some ls \<longrightarrow>
              (\<exists>cs. label_colors a = Some cs
                  \<and> l_label_colors h = map (\<lambda>(r, gr, b, al). (r, gr, b, label_alpha a)) cs))"
proof -
  have kept: "f \<in> set (kept_indices a h)"
    using assms(3) overlay_kept_subset by blast
  have f: "f < length (l_faces h)"
    using kept by (rule kept_indices_range)
  define fc1 where "fc1 = fst (overlay_stage a h st (base_colors g h))"
  have len1: "length fc1 = length (l_faces h)"
    by (simp add: fc1_def length_overlay_stage length_base_colors)
  have v1: "fc1 ! f = overlay_colors a h st ov ! f"
    unfolding fc1_def
    by (rule nth_overlay_stage_kept [OF assms(2,3) length_base_colors])
  have len2: "length (mask_stage a h fc1) = length (l_faces h)"
    by (simp add: length_mask_stage len1)
  have v2: "mask_stage a h fc1 ! f = fc1 ! f"
    by (rule nth_mask_stage_kept [OF kept len1])
  have comp: "fst (composite g a h st) = label_stage h (mask_stage a h fc1)"
    by (simp add: composite_def fc1_def split: prod.splits)
  have "fst (composite g a h st) ! f
           = foldl rgba_mul (overlay_colors a h st ov ! f) (covering_colors h f)"
    unfolding comp covering_colors_def
    using nth_label_stage [of f "mask_stage a h fc1" h] f len2 v2 v1 by simp
  then have main: "fst (composite g a h st) ! f
           = foldl (\<lambda>(r, gr, b, al) (r', gr', b', al'). (r * r', gr * gr', b * b', al * al'))
               (overlay_colors a h st ov ! f) (covering_colors h f)"
    by (simp only: rgba_mul_explicit)
  have single: "\<forall>r gr b al r' gr' b' al'.
              overlay_colors a h st ov ! f = (r, gr, b, al)
              \<and> covering_colors h f = [(r', gr', b', al')]
            \<longrightarrow> fst (composite g a h st) ! f = (r * r', gr * gr', b * b', al * al')"
    using main by simp
  have alpha: "\<forall>ls. labels a = Some ls \<longrightarrow>
              (\<exists>cs. label_colors a = Some cs
                  \<and> l_label_colors h = map (\<lambda>(r, gr, b, al). (r, gr, b, label_alpha a)) cs)"
    using load_hemi_label_colors [OF assms(1)] unfolding set_alpha_explicit by blast
  from main nth_overlay_colors [OF f] single alpha show ?thesis by (intro conjI)
qed

theorem label_tint_multiplies_overlay_witness:
  "load_hemi w_args2 LH = Inr w_lh2
   \<and> l_overlay w_lh2 = Some [Fin 0, Fin 3, Fin 6, Fin 9]
   \<and> overlay_kept w_args2 w_lh2 [Fin 0, Fin 3, Fin 6, Fin 9] = [0, 1]
   \<and> label_alpha w_args2 = 1 / 2
   \<and> label_colors w_args2 = Some [(1 / 2, 1 / 2, 1, 1), (1 / 3, 1, 1 / 2, 1)]
   \<and> overlay_colors w_args2 w_lh2 (None, None) [Fin 0, Fin 3, Fin 6, Fin 9] ! 0 = (0, 0, 1, 1)
   \<and> covering_colors w_lh2 0 = [(1 / 2, 1 / 2, 1, 1 / 2), (1 / 3, 1, 1 / 2, 1 / 2)]
   \<and> fst (composite w_greys w_args2 w_lh2 (None, None)) ! 0 = (0, 0, 1 / 2, 1 / 4)
   \<and> overlay_colors w_args2 w_lh2 (None, None) [Fin 0, Fin 3, Fin 6, Fin 9] ! 1 = (1, 1 / 2, 0, 1)
   \<and> covering_colors w_lh2 1 = [(1 / 3, 1, 1 / 2, 1 / 2)]
   \<and> fst (composite w_greys w_args2 w_lh2 (None, None)) ! 1 = (1 / 3, 1 / 2, 0, 1 / 2)"
proof -
  have ov: "l_overlay w_lh2 = Some [Fin 0, Fin 3, Fin 6, Fin 9]"
    by code_simp
  have k: "overlay_kept w_args2 w_lh2 [Fin 0, Fin 3, Fin 6, Fin 9] = [0, 1]"
    by code_simp
  have k0: "0 \<in> set (overlay_kept w_args2 w_lh2 [Fin 0, Fin 3, Fin 6, Fin 9])"
    and k1: "1 \<in> set (overlay_kept w_args2 w_lh2 [Fin 0, Fin 3, Fin 6, Fin 9])"
    unfolding k by simp_all
  have al: "label_alpha w_args2 = 1 / 2" by code_simp
  have lc: "label_colors w_args2 = Some [(1 / 2, 1 / 2, 1, 1), (1 / 3, 1, 1 / 2, 1)]" by code_simp
  have oc0: "overlay_colors w_args2 w_lh2 (None, None) [Fin 0, Fin 3, Fin 6, Fin 9] ! 0 = (0, 0, 1, 1)"
    by code_simp
  have cov0: "covering_colors w_lh2 0 = [(1 / 2, 1 / 2, 1, 1 / 2), (1 / 3, 1, 1 / 2, 1 / 2)]"
    by code_simp
  have oc1: "overlay_colors w_args2 w_lh2 (None, None) [Fin 0, Fin 3, Fin 6, Fin 9] ! 1 = (1, 1 / 2, 0, 1)"
    by code_simp
  have cov1: "covering_colors w_lh2 1 = [(1 / 3, 1, 1 / 2, 1 / 2)]"
    by code_simp
  note at0 = label_tint_multiplies_overlay [OF w_load2_LH ov k0, of w_greys "(None, None)"]
  note at1 = label_tint_multiplies_overlay [OF w_load2_LH ov k1, of w_greys "(None, None)"]
  have r0: "fst (composite w_greys w_args2 w_lh2 (None, None)) ! 0 = (0, 0, 1 / 2, 1 / 4)"
    using at0 [THEN conjunct1] unfolding oc0 cov0 by simp
  have r1: "fst (composite w_greys w_args2 w_lh2 (None, None)) ! 1 = (1 / 3, 1 / 2, 0, 1 / 2)"
    using at1 [THEN conjunct1] unfolding oc1 cov1 by simp
  from w_load2_LH ov k al lc oc0 cov0 r0 oc1 cov1 r1 show ?thesis by (intro conjI)
qed

subsection \<open>Thresholding the overlay\<close>




lemma kept_indices_threshold [simp]: "kept_indices (a\<lparr>threshold := thr\<rparr>) h = kept_indices a h"
  by (simp add: kept_indices_def)

lemma overlay_faces_threshold [simp]: "overlay_faces (a\<lparr>threshold := thr\<rparr>) h ov = overlay_faces a h ov"
  by (simp add: overlay_faces_def)



subsection \<open>Sulcal and label reductions\<close>

lemma Min_eq_Max_iff_all_equal:
  fixes xs :: "real list"
  assumes "i < length xs"
  shows "Min (set xs) = Max (set xs) \<longleftrightarrow> (\<forall>j<length xs. xs ! j = xs ! i)"
proof
  assume eq: "Min (set xs) = Max (set xs)"
  have "xs ! j = Min (set xs)" if "j < length xs" for j
  proof -
    have "xs ! j \<in> set xs" using that by simp
    then have "Min (set xs) \<le> xs ! j" "xs ! j \<le> Max (set xs)" by simp_all
    with eq show ?thesis by simp
  qed
  then show "\<forall>j<length xs. xs ! j = xs ! i" using assms by simp
next
  assume all: "\<forall>j<length xs. xs ! j = xs ! i"
  have ne: "set xs \<noteq> {}" using assms by auto
  have one: "x = xs ! i" if "x \<in> set xs" for x
    using that all by (auto simp: in_set_conv_nth)
  have "Min (set xs) \<in> set xs" using ne by (simp add: Min_in)
  then have a: "Min (set xs) = xs ! i" by (rule one)
  have "Max (set xs) \<in> set xs" using ne by (simp add: Max_in)
  then have b: "Max (set xs) = xs ! i" by (rule one)
  from a b show "Min (set xs) = Max (set xs)" by simp
qed

lemma median3_middle: "median3 (a, b, c) = sort [a, b, c] ! 1"
  by (auto simp: median3_def min_def max_def)

lemma read_avg_method:
  "read_ctx_mask (a\<lparr>avg_method := am\<rparr>) m n = read_ctx_mask a m n"
  "read_sulc (a\<lparr>avg_method := am\<rparr>) m n = read_sulc a m n"
  "read_labels (a\<lparr>avg_method := am\<rparr>) m n = read_labels a m n"
  "read_overlay (a\<lparr>avg_method := am\<rparr>) m n = read_overlay a m n"
  by (auto simp: read_ctx_mask_def read_sulc_def read_labels_def read_overlay_def
      split: option.splits sum.splits)

lemma load_hemi_avg_method:
  "load_hemi (a\<lparr>avg_method := am\<rparr>) m = load_hemi a m"
  unfolding load_hemi_def read_avg_method by simp

text \<open>
  C7. The sulcal face value is the mean of the face's three vertex values and a label
  mask's face value is the median (the middle) of its three vertex values; neither
  depends on \<open>avg_method\<close>. Unless all sulcal face values are equal, a value \<open>\<le> 0\<close>
  becomes 0 and a value \<open>> 0\<close> becomes 1; when all are equal the values stay as they are.
\<close>

theorem sulc_mean_label_median_binarize:
  assumes "i < length (l_faces h)"
  shows "raw_sulc_faces h ! i
           = (case l_faces h ! i of (p, q, r) \<Rightarrow> (l_sulc h ! p + l_sulc h ! q + l_sulc h ! r) / 3)
       \<and> ((\<forall>j<length (l_faces h). raw_sulc_faces h ! j = raw_sulc_faces h ! i)
             \<longrightarrow> sulc_faces h ! i = raw_sulc_faces h ! i)
       \<and> (\<not> (\<forall>j<length (l_faces h). raw_sulc_faces h ! j = raw_sulc_faces h ! i)
             \<longrightarrow> sulc_faces h ! i = (if raw_sulc_faces h ! i \<le> 0 then 0 else 1))
       \<and> (\<forall>k<length (l_label_masks h).
             label_mask_faces h ! k ! i
               = (case l_faces h ! i of (p, q, r) \<Rightarrow>
                    sort [mask_values (l_label_masks h ! k) ! p,
                          mask_values (l_label_masks h ! k) ! q,
                          mask_values (l_label_masks h ! k) ! r] ! 1))
       \<and> (\<forall>am. load_hemi (a\<lparr>avg_method := am\<rparr>) m = load_hemi a m)"
proof -
  have i': "i < length (raw_sulc_faces h)"
    using assms by (simp add: length_raw_sulc_faces)
  have raw: "raw_sulc_faces h ! i
           = (case l_faces h ! i of (p, q, r) \<Rightarrow> (l_sulc h ! p + l_sulc h ! q + l_sulc h ! r) / 3)"
    using assms by (simp add: raw_sulc_faces_def mean3_def take3_def split: prod.splits)
  note eqv = Min_eq_Max_iff_all_equal [OF i', unfolded length_raw_sulc_faces]
  have flat: "(\<forall>j<length (l_faces h). raw_sulc_faces h ! j = raw_sulc_faces h ! i)
             \<longrightarrow> sulc_faces h ! i = raw_sulc_faces h ! i"
    using eqv by (simp add: sulc_faces_def binarize_def)
  have bin: "\<not> (\<forall>j<length (l_faces h). raw_sulc_faces h ! j = raw_sulc_faces h ! i)
             \<longrightarrow> sulc_faces h ! i = (if raw_sulc_faces h ! i \<le> 0 then 0 else 1)"
  proof
    assume ne: "\<not> (\<forall>j<length (l_faces h). raw_sulc_faces h ! j = raw_sulc_faces h ! i)"
    then have "Min (set (raw_sulc_faces h)) \<noteq> Max (set (raw_sulc_faces h))"
      using eqv by simp
    then have "sulc_faces h
        = map (\<lambda>v. if v \<le> 0 then 0 else if 0 < v then 1 else v) (raw_sulc_faces h)"
      by (simp add: sulc_faces_def binarize_def)
    then show "sulc_faces h ! i = (if raw_sulc_faces h ! i \<le> 0 then 0 else 1)"
      using i' by simp
  qed
  have lab: "\<forall>k<length (l_label_masks h).
             label_mask_faces h ! k ! i
               = (case l_faces h ! i of (p, q, r) \<Rightarrow>
                    sort [mask_values (l_label_masks h ! k) ! p,
                          mask_values (l_label_masks h ! k) ! q,
                          mask_values (l_label_masks h ! k) ! r] ! 1)"
  proof (intro allI impI)
    fix k assume k: "k < length (l_label_masks h)"
    obtain p q r where f: "l_faces h ! i = (p, q, r)" by (cases "l_faces h ! i")
    have "label_mask_faces h ! k ! i
        = median3 (take3 (mask_values (l_label_masks h ! k)) (l_faces h ! i))"
      using k assms by (simp add: label_mask_faces_def mask_faces_def)
    also have "\<dots> = sort [mask_values (l_label_masks h ! k) ! p,
                          mask_values (l_label_masks h ! k) ! q,
                          mask_values (l_label_masks h ! k) ! r] ! 1"
      unfolding f take3_def by (simp only: prod.case median3_middle)
    finally show "label_mask_faces h ! k ! i
               = (case l_faces h ! i of (p, q, r) \<Rightarrow>
                    sort [mask_values (l_label_masks h ! k) ! p,
                          mask_values (l_label_masks h ! k) ! q,
                          mask_values (l_label_masks h ! k) ! r] ! 1)"
      by (simp only: f prod.case)
  qed
  have avg: "\<forall>am. load_hemi (a\<lparr>avg_method := am\<rparr>) m = load_hemi a m"
    by (simp add: load_hemi_avg_method)
  from raw flat bin lab avg show ?thesis by blast
qed

theorem sulc_mean_label_median_binarize_witness:
  "1 < length (l_faces w_lh)
   \<and> raw_sulc_faces w_lh = [- 1, 2]
   \<and> sulc_faces w_lh = [0, 1]
   \<and> label_mask_faces w_lh = [[1, 0]]
   \<and> sulc_faces w_lh ! 1 = (if raw_sulc_faces w_lh ! 1 \<le> 0 then 0 else 1)"
proof -
  have l: "1 < length (l_faces w_lh)" by code_simp
  have r: "raw_sulc_faces w_lh = [- 1, 2]" by code_simp
  have s: "sulc_faces w_lh = [0, 1]" by code_simp
  have m: "label_mask_faces w_lh = [[1, 0]]" by code_simp
  have ne: "\<not> (\<forall>j<length (l_faces w_lh). raw_sulc_faces w_lh ! j = raw_sulc_faces w_lh ! 1)"
  proof
    assume all: "\<forall>j<length (l_faces w_lh). raw_sulc_faces w_lh ! j = raw_sulc_faces w_lh ! 1"
    have "0 < length (l_faces w_lh)" using l by linarith
    from all [rule_format, OF this] show False unfolding r by simp
  qed
  note inst = sulc_mean_label_median_binarize [OF l, where a = w_args and m = LH]
  from inst [THEN conjunct2, THEN conjunct2, THEN conjunct1] ne
  have b: "sulc_faces w_lh ! 1 = (if raw_sulc_faces w_lh ! 1 \<le> 0 then 0 else 1)"
    by (rule mp)
  from l r s m b show ?thesis by (intro conjI)
qed

subsection \<open>The default sulcal map\<close>

lemma load_hemi_fields:
  assumes "load_hemi a m = Inr h"
  shows "mesh_raises (pick m (meshes a)) = None"
    and "l_vertices h = fst (pick m (meshes a))"
    and "l_faces h = snd (pick m (meshes a))"
    and "read_sulc a m (length (l_vertices h)) = Inr (l_sulc h)"
    and "read_overlay a m (length (l_vertices h)) = Inr (l_overlay h)"
    and "read_ctx_mask a m (length (l_vertices h)) = Inr (l_mask h)"
  using assms
  by (auto simp: load_hemi_def Let_def split: option.splits sum.splits)

lemma mesh_ok_faces:
  assumes "mesh_raises (vs, fs) = None"
  shows "vs \<noteq> []" "fs \<noteq> []" "list_all (face_in_range (length vs)) fs"
  using assms by (auto simp: mesh_raises_def split: if_splits)

lemma take3_replicate:
  assumes "face_in_range n f"
  shows "take3 (replicate n x) f = (x, x, x)"
  using assms by (cases f) (simp add: take3_def face_in_range_def)

text \<open>
  C10. With \<open>sulc_maps = None\<close> every vertex gets the sulcal value 0.5; then every
  sulcal face value is 0.5, nothing is binarised, and the base colour of every face is
  \<open>greys_narrow 0.5\<close>.
\<close>

theorem default_sulc_uniform_grey:
  assumes "sulc_maps a = None" and "load_hemi a m = Inr h"
  shows "l_sulc h = replicate (length (l_vertices h)) (1 / 2)
       \<and> raw_sulc_faces h = replicate (length (l_faces h)) (1 / 2)
       \<and> sulc_faces h = raw_sulc_faces h
       \<and> base_colors g h = replicate (length (l_faces h)) (g (1 / 2))"
proof -
  note f = load_hemi_fields [OF assms(2)]
  have ok: "mesh_raises (l_vertices h, l_faces h) = None"
    using f(1) by (simp add: f(2,3))
  note m = mesh_ok_faces [OF ok]
  have sulc: "l_sulc h = replicate (length (l_vertices h)) (1 / 2)"
    using f(4) assms(1) by (simp add: read_sulc_def)
  have "mean3 (take3 (l_sulc h) x) = 1 / 2" if "x \<in> set (l_faces h)" for x
  proof -
    have "face_in_range (length (l_vertices h)) x"
      using m(3) that by (simp add: list_all_iff)
    then show ?thesis
      by (simp add: sulc take3_replicate mean3_def)
  qed
  then have raw: "raw_sulc_faces h = replicate (length (l_faces h)) (1 / 2)"
    unfolding raw_sulc_faces_def by (simp add: map_replicate_const [symmetric] cong: map_cong)
  have "set (raw_sulc_faces h) = {1 / 2}"
    using m(2) by (simp add: raw)
  then have bin: "sulc_faces h = raw_sulc_faces h"
    by (simp add: sulc_faces_def binarize_def)
  have base: "base_colors g h = replicate (length (l_faces h)) (g (1 / 2))"
    by (simp add: base_colors_def bin raw)
  from sulc raw bin base show ?thesis by (intro conjI)
qed

theorem default_sulc_uniform_grey_witness:
  "sulc_maps (w_args\<lparr>sulc_maps := None\<rparr>) = None
   \<and> (\<exists>h. load_hemi (w_args\<lparr>sulc_maps := None\<rparr>) LH = Inr h
        \<and> length (l_faces h) = 2
        \<and> base_colors w_greys h = [w_greys (1 / 2), w_greys (1 / 2)])"
proof -
  have n: "sulc_maps (w_args\<lparr>sulc_maps := None\<rparr>) = None" by simp
  have l: "load_hemi (w_args\<lparr>sulc_maps := None\<rparr>) LH
         = Inr (w_lh\<lparr>l_sulc := [1 / 2, 1 / 2, 1 / 2, 1 / 2]\<rparr>)"
    by code_simp
  have len: "length (l_faces (w_lh\<lparr>l_sulc := [1 / 2, 1 / 2, 1 / 2, 1 / 2]\<rparr>)) = 2"
    by code_simp
  note inst = default_sulc_uniform_grey [OF n l, of w_greys]
  from inst [THEN conjunct2, THEN conjunct2, THEN conjunct2]
  have "base_colors w_greys (w_lh\<lparr>l_sulc := [1 / 2, 1 / 2, 1 / 2, 1 / 2]\<rparr>)
      = [w_greys (1 / 2), w_greys (1 / 2)]"
    unfolding len by (simp add: numeral_2_eq_2)
  with n l len show ?thesis by blast
qed

subsection \<open>The bounds of the first hemisphere are reused\<close>








subsection \<open>When \<^verbatim>\<open>plot_surf4\<close> raises\<close>















lemma load_hemi_total: "(\<exists>e. load_hemi a m = Inl e) \<or> (\<exists>h. load_hemi a m = Inr h)"
  by (cases "load_hemi a m") auto









subsection \<open>Shading\<close>

lemma sorted_nth_ge_Min:
  fixes xs :: "real list"
  assumes "i < length xs"
  shows "Min (set xs) \<le> sort xs ! i"
proof -
  have "sort xs ! i \<in> set (sort xs)" by (rule nth_mem) (simp add: assms)
  then have "sort xs ! i \<in> set xs" by simp
  then show ?thesis by simp
qed

lemma percentile80_ge_Min:
  fixes xs :: "real list"
  assumes "xs \<noteq> []"
  shows "Min (set xs) \<le> percentile80 xs"
proof -
  define n where "n = length xs"
  define lo where "lo = (4 * (n - 1)) div 5"
  define hi where "hi = min (lo + 1) (n - 1)"
  define g where "g = real ((4 * (n - 1)) mod 5) / 5"
  have n: "0 < n" using assms by (simp add: n_def)
  have lo: "lo < n" using n by (simp add: lo_def)
  have hi: "hi < n" using n by (simp add: hi_def)
  have lohi: "lo \<le> hi" using lo by (simp add: hi_def)
  have g: "0 \<le> g" by (simp add: g_def)
  have s: "sort xs ! lo \<le> sort xs ! hi"
    using sorted_nth_mono [of "sort xs" lo hi] lohi hi by (simp add: n_def)
  have "Min (set xs) \<le> sort xs ! lo"
    using lo by (intro sorted_nth_ge_Min) (simp add: n_def)
  also have "\<dots> \<le> sort xs ! lo + g * (sort xs ! hi - sort xs ! lo)"
    using g s by simp
  also have "\<dots> = percentile80 xs"
    by (simp add: percentile80_def Let_def n_def lo_def hi_def g_def)
  finally show ?thesis .
qed

lemma shade_row_regular:
  fixes x mn d :: real
  assumes "d \<noteq> 0"
  shows "(if np_gt (np_add (Fin (1 - shading)) (np_div (Fin (shading * (x - mn))) (Fin d))) 1
          then Fin 1
          else np_add (Fin (1 - shading)) (np_div (Fin (shading * (x - mn))) (Fin d)))
       = Fin ((1 - 7 / 10) + 7 / 10 * min 1 ((x - mn) / d))"
proof -
  define r where "r = (x - mn) / d"
  have q: "np_add (Fin (1 - shading)) (np_div (Fin (shading * (x - mn))) (Fin d))
         = Fin (3 / 10 + 7 / 10 * r)"
    using assms by (simp add: shading_def r_def)
  have "(if np_gt (Fin (3 / 10 + 7 / 10 * r)) 1 then Fin 1 else Fin (3 / 10 + 7 / 10 * r))
      = Fin ((1 - 7 / 10) + 7 / 10 * min 1 r)"
    by (simp add: min_def)
  then show ?thesis unfolding q r_def .
qed

lemma shade_row_flat:
  fixes x mn :: real
  assumes "mn \<le> x"
  shows "(if np_gt (np_add (Fin (1 - shading)) (np_div (Fin (shading * (x - mn))) (Fin 0))) 1
          then Fin 1
          else np_add (Fin (1 - shading)) (np_div (Fin (shading * (x - mn))) (Fin 0)))
       = (if x = mn then NaN else Fin 1)"
  using assms by (simp add: shading_def)

text \<open>
  C3 (as amended). The light intensity of a face is the dot product of its normal with
  \<open>(0, 0, 1)\<close>, that is the z component of the normal. The intensity is not floored at 0:
  its minimum is subtracted, and the difference is divided by the 80th percentile minus
  the minimum, so that the minimum maps to 0 and the 80th percentile to 1; the quotient
  is clipped above at 1 and the shaded value is \<open>(1 - shading) + shading * rescaled\<close>
  with \<open>shading = 0.7\<close>. When the 80th percentile equals the minimum (a flat mesh, or
  more than four faces in five at the minimum) the division is by zero: the faces at the
  minimum get nan and the others 1. With no face at all \<^verbatim>\<open>np.min\<close> raises.
\<close>

theorem shade_subtracts_minimum:
  "shade intensity
     = (if intensity = [] then Inl NumpyValueError
        else if percentile80 intensity = Min (set intensity)
        then Inr (map (\<lambda>x. if x = Min (set intensity) then NaN else Fin 1) intensity)
        else Inr (map (\<lambda>x. Fin ((1 - 7 / 10) + 7 / 10
                     * min 1 ((x - Min (set intensity))
                              / (percentile80 intensity - Min (set intensity))))) intensity))
   \<and> shading = 7 / 10
   \<and> (intensity \<noteq> [] \<longrightarrow> Min (set intensity) \<le> percentile80 intensity)
   \<and> (\<forall>x \<in> set intensity. percentile80 intensity \<noteq> Min (set intensity) \<longrightarrow>
         0 \<le> (x - Min (set intensity)) / (percentile80 intensity - Min (set intensity))
         \<and> (x = Min (set intensity) \<longrightarrow>
              (x - Min (set intensity)) / (percentile80 intensity - Min (set intensity)) = 0)
         \<and> (x = percentile80 intensity \<longrightarrow>
              (x - Min (set intensity)) / (percentile80 intensity - Min (set intensity)) = 1)
         \<and> (percentile80 intensity \<le> x \<longrightarrow>
              min 1 ((x - Min (set intensity))
                     / (percentile80 intensity - Min (set intensity))) = 1))
   \<and> face_intensity normals = map vz normals"
proof -
  define mn where "mn = Min (set intensity)"
  define p where "p = percentile80 intensity"
  have sh: "shade intensity
     = (if intensity = [] then Inl NumpyValueError
        else if p = mn
        then Inr (map (\<lambda>x. if x = mn then NaN else Fin 1) intensity)
        else Inr (map (\<lambda>x. Fin ((1 - 7 / 10) + 7 / 10 * min 1 ((x - mn) / (p - mn)))) intensity))"
  proof (cases "intensity = []")
    case True
    then show ?thesis by (simp add: shade_def)
  next
    case ne: False
    have unf: "shade intensity
       = Inr (map (\<lambda>x. if np_gt (np_add (Fin (1 - shading))
                                   (np_div (Fin (shading * (x - mn))) (Fin (p - mn)))) 1
                        then Fin 1
                        else np_add (Fin (1 - shading))
                               (np_div (Fin (shading * (x - mn))) (Fin (p - mn)))) intensity)"
      unfolding shade_def Let_def mn_def p_def by (simp only: ne if_False)
    show ?thesis
    proof (cases "p = mn")
      case True
      then have z: "p - mn = 0" by simp
      have "map (\<lambda>x. if np_gt (np_add (Fin (1 - shading))
                                   (np_div (Fin (shading * (x - mn))) (Fin 0))) 1
                        then Fin 1
                        else np_add (Fin (1 - shading))
                               (np_div (Fin (shading * (x - mn))) (Fin 0))) intensity
          = map (\<lambda>x. if x = mn then NaN else Fin 1) intensity"
      proof (rule map_cong [OF refl])
        fix x assume "x \<in> set intensity"
        then have "mn \<le> x" by (simp add: mn_def)
        then show "(if np_gt (np_add (Fin (1 - shading))
                                   (np_div (Fin (shading * (x - mn))) (Fin 0))) 1
                        then Fin 1
                        else np_add (Fin (1 - shading))
                               (np_div (Fin (shading * (x - mn))) (Fin 0)))
                 = (if x = mn then NaN else Fin 1)"
          by (rule shade_row_flat)
      qed
      then have "shade intensity = Inr (map (\<lambda>x. if x = mn then NaN else Fin 1) intensity)"
        unfolding unf z by (rule arg_cong)
      then show ?thesis
        using ne True by simp
    next
      case False
      then have d: "p - mn \<noteq> 0" by simp
      have "shade intensity
          = Inr (map (\<lambda>x. Fin ((1 - 7 / 10) + 7 / 10 * min 1 ((x - mn) / (p - mn)))) intensity)"
        unfolding unf by (simp only: shade_row_regular [OF d])
      then show ?thesis
        using ne False by simp
    qed
  qed
  have ge: "intensity \<noteq> [] \<longrightarrow> mn \<le> p"
    using percentile80_ge_Min [of intensity] by (simp add: mn_def p_def)
  have props: "\<forall>x \<in> set intensity. p \<noteq> mn \<longrightarrow>
         0 \<le> (x - mn) / (p - mn)
         \<and> (x = mn \<longrightarrow> (x - mn) / (p - mn) = 0)
         \<and> (x = p \<longrightarrow> (x - mn) / (p - mn) = 1)
         \<and> (p \<le> x \<longrightarrow> min 1 ((x - mn) / (p - mn)) = 1)"
  proof (intro ballI impI)
    fix x assume x: "x \<in> set intensity" and ne: "p \<noteq> mn"
    from x have xs: "intensity \<noteq> []" by auto
    have pos: "0 < p - mn" using ge xs ne by simp
    have lo: "mn \<le> x" using x by (simp add: mn_def)
    have a: "0 \<le> (x - mn) / (p - mn)" using pos lo by simp
    have b: "x = mn \<longrightarrow> (x - mn) / (p - mn) = 0" by simp
    have c: "x = p \<longrightarrow> (x - mn) / (p - mn) = 1" using pos by simp
    have d: "p \<le> x \<longrightarrow> min 1 ((x - mn) / (p - mn)) = 1" using pos by (simp add: min_def)
    from a b c d
    show "0 \<le> (x - mn) / (p - mn)
         \<and> (x = mn \<longrightarrow> (x - mn) / (p - mn) = 0)
         \<and> (x = p \<longrightarrow> (x - mn) / (p - mn) = 1)
         \<and> (p \<le> x \<longrightarrow> min 1 ((x - mn) / (p - mn)) = 1)"
      by (intro conjI)
  qed
  have dotz: "face_intensity normals = map vz normals"
    by (simp add: face_intensity_def dot_def light_def vx_def vy_def vz_def)
  have sv: "shading = 7 / 10" by (simp add: shading_def)
  from sh sv ge props dotz show ?thesis
    unfolding mn_def p_def by (intro conjI)
qed

theorem shade_subtracts_minimum_witness:
  "w_intensity \<noteq> [] \<and> percentile80 w_intensity = 3 / 5 \<and> Min (set w_intensity) = - 1
   \<and> shade w_intensity
       = Inr [Fin (59 / 80), Fin 1, Fin (3 / 10), Fin (153 / 160), Fin (83 / 160)]
   \<and> percentile80 [1 / 2, 1 / 2, 1 / 2, 1 / 2, 1 / 2, 1] = 1 / 2
   \<and> Min (set [1 / 2, 1 / 2, 1 / 2, 1 / 2, 1 / 2, 1 :: real]) = 1 / 2
   \<and> shade [1 / 2, 1 / 2, 1 / 2, 1 / 2, 1 / 2, 1] = Inr [NaN, NaN, NaN, NaN, NaN, Fin 1]"
proof -
  have ne: "w_intensity \<noteq> []" by code_simp
  have p: "percentile80 w_intensity = 3 / 5" by code_simp
  have m: "Min (set w_intensity) = - 1" by code_simp
  have s: "shade w_intensity
       = Inr [Fin (59 / 80), Fin 1, Fin (3 / 10), Fin (153 / 160), Fin (83 / 160)]"
    using shade_subtracts_minimum [of w_intensity "[]", THEN conjunct1]
    unfolding p m by (simp add: w_intensity_def)
  have p2: "percentile80 [1 / 2, 1 / 2, 1 / 2, 1 / 2, 1 / 2, 1] = 1 / 2" by code_simp
  have m2: "Min (set [1 / 2, 1 / 2, 1 / 2, 1 / 2, 1 / 2, 1 :: real]) = 1 / 2" by code_simp
  have s2: "shade [1 / 2, 1 / 2, 1 / 2, 1 / 2, 1 / 2, 1] = Inr [NaN, NaN, NaN, NaN, NaN, Fin 1]"
    using shade_subtracts_minimum [of "[1 / 2, 1 / 2, 1 / 2, 1 / 2, 1 / 2, 1]" "[]", THEN conjunct1]
    unfolding p2 m2 by simp
  from ne p m s p2 m2 s2 show ?thesis by (intro conjI)
qed

text \<open>
  C3 as stated fails. The intensities \<open>0\<close>, \<open>-1\<close> and \<open>-1/2\<close> are all \<open>0\<close> once floored at 0,
  so a shading that floors at 0 gives these three faces one value; the code gives them
  \<open>59/80\<close>, \<open>3/10\<close> and \<open>83/160\<close>. No function of the floored intensity yields the code's
  shaded values.
\<close>

theorem shade_not_floored_counterexample:
  "w_intensity = [0, 1, - 1, 1 / 2, - (1 / 2)]
   \<and> map (max 0) w_intensity = [0, 1, 0, 1 / 2, 0]
   \<and> shade w_intensity
       = Inr [Fin (59 / 80), Fin 1, Fin (3 / 10), Fin (153 / 160), Fin (83 / 160)]
   \<and> \<not> (\<exists>\<phi> :: real \<Rightarrow> real.
           shade w_intensity = Inr (map (\<lambda>x. Fin (\<phi> (max 0 x))) w_intensity))"
proof -
  have w: "w_intensity = [0, 1, - 1, 1 / 2, - (1 / 2)]" by (simp add: w_intensity_def)
  have fl: "map (max 0) w_intensity = [0, 1, 0, 1 / 2, 0]" by (simp add: w_intensity_def)
  have s: "shade w_intensity
       = Inr [Fin (59 / 80), Fin 1, Fin (3 / 10), Fin (153 / 160), Fin (83 / 160)]"
    by code_simp
  have no: "\<not> (\<exists>\<phi> :: real \<Rightarrow> real.
           shade w_intensity = Inr (map (\<lambda>x. Fin (\<phi> (max 0 x))) w_intensity))"
  proof
    assume "\<exists>\<phi> :: real \<Rightarrow> real.
           shade w_intensity = Inr (map (\<lambda>x. Fin (\<phi> (max 0 x))) w_intensity)"
    then obtain \<phi> :: "real \<Rightarrow> real"
      where "shade w_intensity = Inr (map (\<lambda>x. Fin (\<phi> (max 0 x))) w_intensity)" ..
    then have "[Fin (59 / 80), Fin 1, Fin (3 / 10), Fin (153 / 160), Fin (83 / 160)]
             = map (\<lambda>x. Fin (\<phi> (max 0 x))) w_intensity"
      unfolding s by simp
    then have "\<phi> 0 * 80 = 59 \<and> \<phi> 0 * 10 = 3" by (simp add: w_intensity_def)
    then show False by linarith
  qed
  from w fl s no show ?thesis by (intro conjI)
qed

subsection \<open>The camera at the view angles 90 and 270\<close>

lemma cos_sin_90: "cos (pi * 90 / 180) = 0" "sin (pi * 90 / 180) = 1"
proof -
  have e: "pi * 90 / 180 = pi / 2" by simp
  show "cos (pi * 90 / 180) = 0" unfolding e by (rule cos_pi_half)
  show "sin (pi * 90 / 180) = 1" unfolding e by (rule sin_pi_half)
qed

lemma cos_sin_270: "cos (pi * 270 / 180) = 0" "sin (pi * 270 / 180) = - 1"
proof -
  have e: "pi * 270 / 180 = 3 / 2 * pi" by simp
  show "cos (pi * 270 / 180) = 0" unfolding e by (rule cos_3over2_pi)
  show "sin (pi * 270 / 180) = - 1" unfolding e by (rule sin_3over2_pi)
qed

lemma xrotate_270: "xrotate 270 = ((1, 0, 0, 0), (0, 0, 1, 0), (0, - 1, 0, 0), (0, 0, 0, 1))"
  unfolding xrotate_def Let_def cos_sin_270 by simp

lemma yrotate_90: "yrotate 90 = ((0, 0, 1, 0), (0, 1, 0, 0), (- 1, 0, 0, 0), (0, 0, 0, 1))"
  unfolding yrotate_def Let_def cos_sin_90 by simp

lemma yrotate_270: "yrotate 270 = ((0, 0, - 1, 0), (0, 1, 0, 0), (1, 0, 0, 0), (0, 0, 0, 1))"
  unfolding yrotate_def Let_def cos_sin_270 by simp

lemma clip_zw_90:
  "\<exists>x y. clip_coords 90 v = (x, y, 101 / 99 * (vx v + 3) - 200 / 99, vx v + 3)"
  unfolding clip_coords_def MVP_def xrotate_270 yrotate_90
  by (simp add: mat_mul_def row_mat_def column_def row_dot_def mat_vec_def perspective_def
      frustum_def translate_def Let_def) (simp add: field_simps)

lemma clip_zw_270:
  "\<exists>x y. clip_coords 270 v = (x, y, 101 / 99 * (3 - vx v) - 200 / 99, 3 - vx v)"
  unfolding clip_coords_def MVP_def xrotate_270 yrotate_270
  by (simp add: mat_mul_def row_mat_def column_def row_dot_def mat_vec_def perspective_def
      frustum_def translate_def Let_def) (simp add: field_simps)

subsection \<open>Depth sort\<close>

lemma argsort_set: "set (argsort Z) = {0..<length Z}"
  by (simp add: argsort_def)

lemma argsort_length: "length (argsort Z) = length Z"
  by (simp add: argsort_def)

lemma argsort_distinct: "distinct (argsort Z)"
  by (simp add: argsort_def)

lemma argsort_sorted: "sorted (map (\<lambda>i. Z ! i) (argsort Z))"
  unfolding argsort_def by (rule sorted_sort_key)

lemma argsort_nth_le:
  assumes "p \<le> q" "q < length Z"
  shows "Z ! (argsort Z ! p) \<le> Z ! (argsort Z ! q)"
proof -
  have "map (\<lambda>i. Z ! i) (argsort Z) ! p \<le> map (\<lambda>i. Z ! i) (argsort Z) ! q"
    using assms by (intro sorted_nth_mono [OF argsort_sorted]) (simp_all add: argsort_length)
  then show ?thesis using assms by (simp add: argsort_length)
qed

lemma argsort_before:
  assumes "a < length Z" "b < length Z" "Z ! a < Z ! b"
  shows "\<exists>p q. p < q \<and> q < length Z \<and> argsort Z ! p = a \<and> argsort Z ! q = b"
proof -
  have "a \<in> set (argsort Z)" "b \<in> set (argsort Z)"
    using assms by (simp_all add: argsort_set)
  then obtain p q where p: "p < length Z" "argsort Z ! p = a"
    and q: "q < length Z" "argsort Z ! q = b"
    by (auto simp: in_set_conv_nth argsort_length)
  have "\<not> q \<le> p"
  proof
    assume "q \<le> p"
    from argsort_nth_le [OF this p(1)] have "Z ! b \<le> Z ! a" by (simp add: p q)
    with assms(3) show False by simp
  qed
  then have "p < q" by simp
  with p q show ?thesis by blast
qed

lemma collect_map_total:
  assumes "\<And>x. x \<in> set xs \<Longrightarrow> f x = Inr (g x)"
  shows "collect (map f xs) = Inr (map g xs)"
  using assms by (induction xs) simp_all

lemma project_vertices_ok:
  assumes "list_all (\<lambda>v. clip_w view v \<noteq> 0) vs"
  shows "project_vertices view vs = Inr (map (ndc view) vs)"
  unfolding project_vertices_def
proof (rule collect_map_total)
  fix v assume "v \<in> set vs"
  then have "clip_w view v \<noteq> 0" using assms by (simp add: list_all_iff)
  then show "perspective_divide (clip_coords view v) = Inr (ndc view v)"
    by (cases "clip_coords view v") (simp add: perspective_divide_def ndc_def clip_w_def)
qed

lemma draw_view_ok:
  assumes "list_all (face_in_range (length vs)) fs" "list_all (\<lambda>v. clip_w view v \<noteq> 0) vs"
  shows "draw_view view vs fs fc
       = Inr (map (\<lambda>i. screen_triangle (take3 (map (ndc view) vs) (fs ! i)))
                (argsort (depth_keys view vs fs)),
              map (\<lambda>i. fc ! i) (argsort (depth_keys view vs fs)))"
proof -
  have g: "gather (map (ndc view) vs) fs = Inr (map (take3 (map (ndc view) vs)) fs)"
    using assms(1) by (simp add: gather_def)
  have keys: "map depth_key (map (take3 (map (ndc view) vs)) fs) = depth_keys view vs fs"
    by (simp add: depth_keys_def)
  have tri: "map (\<lambda>i. map screen_triangle (map (take3 (map (ndc view) vs)) fs) ! i)
               (argsort (depth_keys view vs fs))
           = map (\<lambda>i. screen_triangle (take3 (map (ndc view) vs) (fs ! i)))
               (argsort (depth_keys view vs fs))"
  proof (rule map_cong [OF refl])
    fix i assume "i \<in> set (argsort (depth_keys view vs fs))"
    then have "i < length fs" by (simp add: argsort_set depth_keys_def)
    then show "map screen_triangle (map (take3 (map (ndc view) vs)) fs) ! i
             = screen_triangle (take3 (map (ndc view) vs) (fs ! i))"
      by simp
  qed
  show ?thesis
    unfolding draw_view_def project_vertices_ok [OF assms(2)] sum.case g Let_def keys tri
    by (rule refl)
qed

lemma ndc_z_depth:
  assumes "view = 90 \<or> view = 270" "clip_w view v \<noteq> 0"
  shows "ndc_z (ndc view v) = 101 / 99 - 200 / (99 * clip_w view v)"
proof -
  from assms(1) obtain x y w where c: "clip_coords view v = (x, y, 101 / 99 * w - 200 / 99, w)"
    using clip_zw_90 [of v] clip_zw_270 [of v] by blast
  have w: "clip_w view v = w" by (simp add: clip_w_def c)
  have "w \<noteq> 0" using assms(2) w by simp
  then have "(101 / 99 * w - 200 / 99) / w = 101 / 99 - 200 / (99 * w)"
    by (simp add: field_simps)
  then show ?thesis by (simp add: ndc_def ndc_z_def c w)
qed

lemma ndc_z_mono:
  assumes "view = 90 \<or> view = 270" "0 < clip_w view v'" "clip_w view v' < clip_w view v"
  shows "ndc_z (ndc view v') < ndc_z (ndc view v)"
proof -
  have "200 / (99 * clip_w view v) < 200 / (99 * clip_w view v')"
    using assms(2,3) by (simp add: field_simps)
  then show ?thesis
    using assms by (simp add: ndc_z_depth)
qed

lemma farther_key_less:
  assumes v: "view = 90 \<or> view = 270" and f: "farther view vs fa fb"
    and r: "face_in_range (length vs) fa" "face_in_range (length vs) fb"
  shows "depth_key (take3 (map (ndc view) vs) fa) < depth_key (take3 (map (ndc view) vs) fb)"
proof -
  obtain p q r where fa: "fa = (p, q, r)" by (cases fa)
  obtain p' q' r' where fb: "fb = (p', q', r')" by (cases fb)
  have ra: "p < length vs" "q < length vs" "r < length vs"
    using r(1) by (simp_all add: fa face_in_range_def)
  have rb: "p' < length vs" "q' < length vs" "r' < length vs"
    using r(2) by (simp_all add: fb face_in_range_def)
  have d: "0 < clip_w view (vs ! y) \<and> clip_w view (vs ! y) < clip_w view (vs ! x)"
    if "x \<in> {p, q, r}" "y \<in> {p', q', r'}" for x y
    using f that by (auto simp: farther_def face_depths_def fa fb)
  have lt: "ndc_z (ndc view (vs ! y)) < ndc_z (ndc view (vs ! x))"
    if "x \<in> {p, q, r}" "y \<in> {p', q', r'}" for x y
    using d [OF that] by (intro ndc_z_mono [OF v]) simp_all
  have "ndc_z (ndc view (vs ! p')) < ndc_z (ndc view (vs ! p))"
       "ndc_z (ndc view (vs ! q')) < ndc_z (ndc view (vs ! q))"
       "ndc_z (ndc view (vs ! r')) < ndc_z (ndc view (vs ! r))"
    by (rule lt; simp)+
  then show ?thesis
    using ra rb by (simp add: fa fb take3_def depth_key_def)
qed

lemma clip_w_90: "clip_w 90 v = vx v + 3"
  using clip_zw_90 [of v] by (auto simp: clip_w_def)

lemma length_depth_keys: "length (depth_keys view vs fs) = length fs"
  by (simp add: depth_keys_def)

text \<open>
  C2. In every view the triangles are emitted in ascending order of their depth key, the
  negated mean of the perspective-divided z coordinates of the three vertices, and the
  face colours are permuted by the same order. A triangle with a smaller key is emitted
  before one with a larger key; in the two view angles the code uses, a triangle farther
  from the camera has the smaller key and is emitted first.
\<close>

theorem painter_order:
  assumes "list_all (face_in_range (length vs)) fs" and "list_all (\<lambda>v. clip_w view v \<noteq> 0) vs"
  shows "draw_view view vs fs fc
           = Inr (map (\<lambda>i. screen_triangle (take3 (map (ndc view) vs) (fs ! i)))
                    (paint_order view vs fs),
                  map (\<lambda>i. fc ! i) (paint_order view vs fs))
       \<and> set (paint_order view vs fs) = {0..<length fs}
       \<and> distinct (paint_order view vs fs)
       \<and> length (paint_order view vs fs) = length fs
       \<and> sorted (map (\<lambda>i. depth_keys view vs fs ! i) (paint_order view vs fs))
       \<and> (\<forall>i<length fs.
             depth_keys view vs fs ! i
               = (case fs ! i of (p, q, r) \<Rightarrow>
                    - ((ndc_z (ndc view (vs ! p)) + ndc_z (ndc view (vs ! q))
                        + ndc_z (ndc view (vs ! r))) / 3)))
       \<and> (\<forall>a b. a < length fs \<and> b < length fs
               \<and> depth_keys view vs fs ! a < depth_keys view vs fs ! b
             \<longrightarrow> (\<exists>p q. p < q \<and> q < length fs
                    \<and> paint_order view vs fs ! p = a \<and> paint_order view vs fs ! q = b))
       \<and> (view = 90 \<or> view = 270 \<longrightarrow>
            (\<forall>a b. a < length fs \<and> b < length fs \<and> farther view vs (fs ! a) (fs ! b)
             \<longrightarrow> (\<exists>p q. p < q \<and> q < length fs
                    \<and> paint_order view vs fs ! p = a \<and> paint_order view vs fs ! q = b)))"
proof -
  have dv: "draw_view view vs fs fc
           = Inr (map (\<lambda>i. screen_triangle (take3 (map (ndc view) vs) (fs ! i)))
                    (paint_order view vs fs),
                  map (\<lambda>i. fc ! i) (paint_order view vs fs))"
    unfolding paint_order_def by (rule draw_view_ok [OF assms])
  have st: "set (paint_order view vs fs) = {0..<length fs}"
    by (simp add: paint_order_def argsort_set length_depth_keys)
  have di: "distinct (paint_order view vs fs)"
    by (simp add: paint_order_def argsort_distinct)
  have le: "length (paint_order view vs fs) = length fs"
    by (simp add: paint_order_def argsort_length length_depth_keys)
  have so: "sorted (map (\<lambda>i. depth_keys view vs fs ! i) (paint_order view vs fs))"
    unfolding paint_order_def by (rule argsort_sorted)
  have key: "\<forall>i<length fs.
             depth_keys view vs fs ! i
               = (case fs ! i of (p, q, r) \<Rightarrow>
                    - ((ndc_z (ndc view (vs ! p)) + ndc_z (ndc view (vs ! q))
                        + ndc_z (ndc view (vs ! r))) / 3))"
  proof (intro allI impI)
    fix i assume i: "i < length fs"
    obtain p q r where f: "fs ! i = (p, q, r)" by (cases "fs ! i")
    have "face_in_range (length vs) (fs ! i)"
      using assms(1) i by (simp add: list_all_length)
    then have "p < length vs" "q < length vs" "r < length vs"
      by (simp_all add: f face_in_range_def)
    then show "depth_keys view vs fs ! i
               = (case fs ! i of (p, q, r) \<Rightarrow>
                    - ((ndc_z (ndc view (vs ! p)) + ndc_z (ndc view (vs ! q))
                        + ndc_z (ndc view (vs ! r))) / 3))"
      using i by (simp add: depth_keys_def f take3_def depth_key_def)
  qed
  have before: "\<exists>p q. p < q \<and> q < length fs
                    \<and> paint_order view vs fs ! p = a \<and> paint_order view vs fs ! q = b"
    if "a < length fs" "b < length fs" "depth_keys view vs fs ! a < depth_keys view vs fs ! b"
    for a b
    using argsort_before [of a "depth_keys view vs fs" b] that
    by (simp add: paint_order_def length_depth_keys)
  have bk: "\<forall>a b. a < length fs \<and> b < length fs
               \<and> depth_keys view vs fs ! a < depth_keys view vs fs ! b
             \<longrightarrow> (\<exists>p q. p < q \<and> q < length fs
                    \<and> paint_order view vs fs ! p = a \<and> paint_order view vs fs ! q = b)"
    using before by blast
  have far: "view = 90 \<or> view = 270 \<longrightarrow>
            (\<forall>a b. a < length fs \<and> b < length fs \<and> farther view vs (fs ! a) (fs ! b)
             \<longrightarrow> (\<exists>p q. p < q \<and> q < length fs
                    \<and> paint_order view vs fs ! p = a \<and> paint_order view vs fs ! q = b))"
  proof (intro impI allI)
    fix a b
    assume v: "view = 90 \<or> view = 270"
      and ab: "a < length fs \<and> b < length fs \<and> farther view vs (fs ! a) (fs ! b)"
    have ra: "face_in_range (length vs) (fs ! a)" and rb: "face_in_range (length vs) (fs ! b)"
      using assms(1) ab by (simp_all add: list_all_length)
    have "depth_key (take3 (map (ndc view) vs) (fs ! a))
        < depth_key (take3 (map (ndc view) vs) (fs ! b))"
      using ab by (intro farther_key_less [OF v _ ra rb]) simp
    then have "depth_keys view vs fs ! a < depth_keys view vs fs ! b"
      using ab by (simp add: depth_keys_def)
    then show "\<exists>p q. p < q \<and> q < length fs
                    \<and> paint_order view vs fs ! p = a \<and> paint_order view vs fs ! q = b"
      using before ab by simp
  qed
  from dv st di le so key bk far show ?thesis by (intro conjI)
qed

lemma near_far_in_range:
  "list_all (face_in_range (length near_far_vertices)) [near_face, far_face]"
  by (simp add: face_in_range_def near_far_vertices_def near_face_def far_face_def)

lemma near_far_in_front: "list_all (\<lambda>v. clip_w 90 v \<noteq> 0) near_far_vertices"
  by (simp add: clip_w_90 near_far_vertices_def vx_def)

lemma far_is_farther:
  "farther 90 near_far_vertices ([near_face, far_face] ! 1) ([near_face, far_face] ! 0)"
  by (simp add: farther_def face_depths_def near_face_def far_face_def clip_w_90
      near_far_vertices_def vx_def)

theorem painter_order_witness:
  "list_all (face_in_range (length near_far_vertices)) [near_face, far_face]
   \<and> list_all (\<lambda>v. clip_w 90 v \<noteq> 0) near_far_vertices
   \<and> farther 90 near_far_vertices ([near_face, far_face] ! 1) ([near_face, far_face] ! 0)
   \<and> paint_order 90 near_far_vertices [near_face, far_face] = [1, 0]
   \<and> (\<exists>T. draw_view 90 near_far_vertices [near_face, far_face] [(1, 0, 0, 1), (0, 0, 1, 1)]
              = Inr (T, [(0, 0, 1, 1), (1, 0, 0, 1)]))"
proof -
  note inst = painter_order [OF near_far_in_range near_far_in_front,
      of "[(1, 0, 0, 1), (0, 0, 1, 1)]"]
  have v: "(90 :: real) = 90 \<or> (90 :: real) = 270" by simp
  have idx: "(1 :: nat) < length [near_face, far_face] \<and> (0 :: nat) < length [near_face, far_face]
       \<and> farther 90 near_far_vertices ([near_face, far_face] ! 1) ([near_face, far_face] ! 0)"
    using far_is_farther by simp
  from inst [THEN conjunct2, THEN conjunct2, THEN conjunct2, THEN conjunct2, THEN conjunct2,
      THEN conjunct2, THEN conjunct2, rule_format, OF v idx]
  obtain p q where pq: "p < q" "q < length [near_face, far_face]"
    "paint_order 90 near_far_vertices [near_face, far_face] ! p = 1"
    "paint_order 90 near_far_vertices [near_face, far_face] ! q = 0"
    by blast
  have len: "length (paint_order 90 near_far_vertices [near_face, far_face]) = 2"
    using inst [THEN conjunct2, THEN conjunct2, THEN conjunct2, THEN conjunct1] by simp
  have "p = 0" "q = 1" using pq(1,2) by simp_all
  with pq(3,4) have "paint_order 90 near_far_vertices [near_face, far_face] ! 0 = 1"
    "paint_order 90 near_far_vertices [near_face, far_face] ! 1 = 0" by simp_all
  with len have po: "paint_order 90 near_far_vertices [near_face, far_face] = [1, 0]"
    by (cases "paint_order 90 near_far_vertices [near_face, far_face]";
        cases "tl (paint_order 90 near_far_vertices [near_face, far_face])") auto
  have "\<exists>T. draw_view 90 near_far_vertices [near_face, far_face] [(1, 0, 0, 1), (0, 0, 1, 1)]
              = Inr (T, [(0, 0, 1, 1), (1, 0, 0, 1)])"
    using inst [THEN conjunct1] by (simp add: po)
  with near_far_in_range near_far_in_front far_is_farther po show ?thesis by (intro conjI)
qed

end
